theory Spec2Isabelle
  imports
    Complex_Main
    "HOL-Library.Char_ord"
    "HOL-Library.List_Lexorder"
    "HOL-Library.Product_Lexorder"
begin

section \<open>Tables and errors\<close>

text \<open>
  The program is a pipeline of six functions over pandas DataFrames
  (\<^verbatim>\<open>_qos_transformations.py\<close>, \<^verbatim>\<open>_qos_metrics.py\<close>). A DataFrame is modelled as its list of
  column names together with its rows in frame order; each table has its own row record, whose
  fields are the columns the source reads. Floating point numbers are modelled as reals, a
  cell that may hold NaN as an option (\<open>None\<close> is NaN). Strings are ordered
  lexicographically by character code, as Python orders them.

  The exceptions the six functions raise are values of \<open>error\<close>; \<open>MergeError\<close> is
  \<^verbatim>\<open>pandas.errors.MergeError\<close>, raised by \<^verbatim>\<open>merge(..., validate=...)\<close>.
\<close>

datatype error = TypeError | ValueError | MergeError

record 'r frame =
  columns :: "string list"
  rows :: "'r list"

text \<open>An argument of a function that starts with \<^verbatim>\<open>isinstance(arg, pd.DataFrame)\<close>.\<close>

datatype 'r pyobj = DataFrame "'r frame" | NotDataFrame

text \<open>\<^verbatim>\<open>qos_data.csv\<close> as read, and after \<^verbatim>\<open>drop(columns='DATE')\<close>.\<close>

record qd_row =
  qd_DATE :: string
  qd_LOCATION :: string
  qd_PRODUCT :: string
  qd_INVENTORY_CURVE_ID :: string
  qd_CONSUMPTION_PROFILE_CURVE_ID :: string

record dr_row =
  dr_LOCATION :: string
  dr_PRODUCT :: string
  dr_INVENTORY_CURVE_ID :: string
  dr_CONSUMPTION_PROFILE_CURVE_ID :: string

text \<open>\<^verbatim>\<open>qos_curves.csv\<close>: \<open>X\<close> and \<open>Y\<close> hold one list per row.\<close>

record qc_row =
  qc_CURVE_ID :: string
  qc_CURVE_TYPE :: string
  qc_WEEK_START :: string
  qc_X :: "int list"
  qc_Y :: "real list"

text \<open>The two tables \<^verbatim>\<open>transform_qos_data\<close> returns.\<close>

record ic_row =
  ic_LOCATION :: string
  ic_PRODUCT :: string
  ic_INVENTORY_CURVE_ID :: string
  ic_CONSUMPTION_PROFILE_CURVE_ID :: string
  ic_WEEK_START :: string
  ic_X :: "int list"
  ic_Y :: "real list"

record cc_row =
  cc_LOCATION :: string
  cc_CONSUMPTION_PROFILE_CURVE_ID :: string
  cc_WEEK_START :: string
  cc_X :: "int list"
  cc_Y :: "real list"

text \<open>The per-minute tables.\<close>

record tpg_row =
  tpg_LOCATION :: string
  tpg_CONSUMPTION_PROFILE_CURVE_ID :: string
  tpg_WEEK_START :: string
  tpg_X :: int

record pig_row =
  pig_LOCATION :: string
  pig_WEEK_START :: string
  pig_X :: int
  pig_INVENTORY_CURVE_ID :: string
  pig_PRODUCT :: string
  pig_CONSUMPTION_PROFILE_CURVE_ID :: "string option"
  pig_Y :: "real option"

record par_row =
  par_LOCATION :: string
  par_CONSUMPTION_PROFILE_CURVE_ID :: string
  par_WEEK_START :: string
  par_X :: int
  par_PA_RATIO :: "real option"

record cci_row =
  cci_LOCATION :: string
  cci_CONSUMPTION_PROFILE_CURVE_ID :: string
  cci_WEEK_START :: string
  cci_X :: int
  cci_CONSUMPTION_Y :: "real option"

text \<open>
  The result of \<^verbatim>\<open>calc_quality_of_service\<close>: a frame with the single column \<open>QOS\<close>, indexed by
  \<open>(LOCATION, WEEK_START)\<close>; the two index levels are the first two fields of the row.
\<close>

record qos_row =
  qos_LOCATION :: string
  qos_WEEK_START :: string
  qos_QOS :: real

section \<open>The pandas operations the pipeline uses\<close>

text \<open>\<^verbatim>\<open>DataFrame.drop_duplicates()\<close> keeps the first occurrence of every row.\<close>

definition drop_duplicates :: "'a list \<Rightarrow> 'a list" where
  "drop_duplicates xs = rev (remdups (rev xs))"

text \<open>
  \<^verbatim>\<open>left.merge(right, how='left')\<close>: every left row in order, once per matching right row in the
  right table's order, or once with NaN on the right when nothing matches.
  \<^verbatim>\<open>left.merge(right)\<close> (the default \<^verbatim>\<open>how='inner'\<close>) leaves the unmatched left rows out.
\<close>

definition merge_left ::
  "('l \<Rightarrow> 'k) \<Rightarrow> ('r \<Rightarrow> 'k) \<Rightarrow> 'l list \<Rightarrow> 'r list \<Rightarrow> ('l \<times> 'r option) list" where
  "merge_left lk rk ls rs =
     concat (map (\<lambda>l. case filter (\<lambda>r. rk r = lk l) rs of
                          [] \<Rightarrow> [(l, None)]
                        | ms \<Rightarrow> map (\<lambda>m. (l, Some m)) ms) ls)"

definition merge_inner ::
  "('l \<Rightarrow> 'k) \<Rightarrow> ('r \<Rightarrow> 'k) \<Rightarrow> 'l list \<Rightarrow> 'r list \<Rightarrow> ('l \<times> 'r) list" where
  "merge_inner lk rk ls rs =
     concat (map (\<lambda>l. map (\<lambda>m. (l, m)) (filter (\<lambda>r. rk r = lk l) rs)) ls)"

text \<open>
  \<^verbatim>\<open>validate='one_to_one'\<close> raises MergeError unless the merge keys are unique in the left and in
  the right table; \<^verbatim>\<open>validate='many_to_one'\<close> unless they are unique in the right table. Neither
  looks at whether a key of one table occurs in the other.
\<close>

definition validate_one_to_one ::
  "('l \<Rightarrow> 'k) \<Rightarrow> ('r \<Rightarrow> 'k) \<Rightarrow> 'l list \<Rightarrow> 'r list \<Rightarrow> bool" where
  "validate_one_to_one lk rk ls rs \<longleftrightarrow> distinct (map lk ls) \<and> distinct (map rk rs)"

definition validate_many_to_one ::
  "('l \<Rightarrow> 'k) \<Rightarrow> ('r \<Rightarrow> 'k) \<Rightarrow> 'l list \<Rightarrow> 'r list \<Rightarrow> bool" where
  "validate_many_to_one lk rk ls rs \<longleftrightarrow> distinct (map rk rs)"

text \<open>The keys of \<^verbatim>\<open>groupby(...)\<close>: each once, sorted.\<close>

definition group_keys :: "('r \<Rightarrow> 'k::linorder) \<Rightarrow> 'r list \<Rightarrow> 'k list" where
  "group_keys key rs = sort (remdups (map key rs))"

text \<open>
  \<^verbatim>\<open>groupby(key)[col].ffill()\<close>: walking the frame in its order, a NaN cell takes the last
  non-NaN value seen before it in a row of the same group, and stays NaN when there is none.
\<close>

fun ffill :: "('k \<rightharpoonup> 'v) \<Rightarrow> ('k \<times> 'v option) list \<Rightarrow> 'v option list" where
  "ffill seen [] = []"
| "ffill seen ((k, Some v) # rest) = Some v # ffill (seen(k \<mapsto> v)) rest"
| "ffill seen ((k, None) # rest) = seen k # ffill seen rest"

definition groupby_ffill :: "('r \<Rightarrow> 'k) \<Rightarrow> ('r \<Rightarrow> 'v option) \<Rightarrow> 'r list \<Rightarrow> 'v option list" where
  "groupby_ffill key col rs = ffill Map.empty (map (\<lambda>r. (key r, col r)) rs)"

text \<open>
  \<^verbatim>\<open>Series.interpolate(method='linear')\<close> with its defaults: the index is ignored and the values
  are taken as equally spaced. A NaN between two valid values lies on the line through the
  nearest valid value before it and the nearest one after it; a NaN after the last valid value
  takes that value; a NaN before the first valid value stays NaN.
  \<open>next_valid ys\<close> is the first valid value of \<open>ys\<close> with the number of NaN before it; the
  first argument of \<open>interpolate_from\<close> is the last valid value passed with the number of NaN
  passed since.
\<close>

fun next_valid :: "real option list \<Rightarrow> (nat \<times> real) option" where
  "next_valid [] = None"
| "next_valid (Some v # ys) = Some (0, v)"
| "next_valid (None # ys) = map_option (\<lambda>(d, v). (Suc d, v)) (next_valid ys)"

fun interpolate_from :: "(nat \<times> real) option \<Rightarrow> real option list \<Rightarrow> real option list" where
  "interpolate_from prev [] = []"
| "interpolate_from prev (Some v # ys) = Some v # interpolate_from (Some (0, v)) ys"
| "interpolate_from prev (None # ys) =
     (case prev of
        None \<Rightarrow> None
      | Some (d, a) \<Rightarrow>
          (case next_valid ys of
             None \<Rightarrow> Some a
           | Some (e, b) \<Rightarrow> Some (a + (b - a) * real (d + 1) / real (d + e + 2))))
     # interpolate_from (map_option (\<lambda>(d, a). (Suc d, a)) prev) ys"

definition interpolate_linear :: "real option list \<Rightarrow> real option list" where
  "interpolate_linear ys = interpolate_from None ys"

text \<open>
  \<^verbatim>\<open>df.explode(list('XY'))\<close>: one row per element of the row's \<open>X\<close> list, with the element of
  \<open>Y\<close> at the same position; ValueError ("columns must have matching element counts") when
  the two lists of a row differ in length. Both callers have checked the boundary minutes
  before, so no \<open>X\<close> list is empty here.
\<close>

definition explode_XY ::
  "('r \<Rightarrow> int list) \<Rightarrow> ('r \<Rightarrow> real list) \<Rightarrow> 'r list \<Rightarrow> error + ('r \<times> int \<times> real) list" where
  "explode_XY X Y rs =
     (if list_ex (\<lambda>r. length (X r) \<noteq> length (Y r)) rs then Inl ValueError
      else Inr (concat (map (\<lambda>r. map (\<lambda>(x, y). (r, x, y)) (zip (X r) (Y r))) rs)))"

text \<open>
  The boundary check both \<^verbatim>\<open>create_product_inventory\<close> and \<^verbatim>\<open>interpolate_consumption_curves\<close>
  start with, on the column of \<open>X\<close> lists:
  \<^verbatim>\<open>
  if df[df['X'].apply(min) != 0].shape[0] != 0: raise ValueError(...)
  if df[df['X'].apply(max) != 10079].shape[0] != 0: raise ValueError(...)
  \<close>
  Python's \<^verbatim>\<open>min\<close> and \<^verbatim>\<open>max\<close> raise ValueError themselves on an empty list.
\<close>

definition check_boundary :: "int list list \<Rightarrow> error option" where
  "check_boundary xss =
     (if list_ex (\<lambda>xs. xs = []) xss then Some ValueError
      else if list_ex (\<lambda>xs. Min (set xs) \<noteq> 0) xss then Some ValueError
      else if list_ex (\<lambda>xs. Max (set xs) \<noteq> 10079) xss then Some ValueError
      else None)"

section \<open>\<^verbatim>\<open>_qos_transformations.py\<close>\<close>

subsection \<open>\<^verbatim>\<open>transform_qos_data\<close>\<close>

text \<open>
  The function changes its argument \<open>qos_data\<close> in place (\<^verbatim>\<open>drop(columns='DATE', inplace=True)\<close>,
  \<^verbatim>\<open>drop_duplicates(inplace=True)\<close>) before anything can raise, so the model returns the frame
  the caller's \<open>qos_data\<close> holds afterwards, and next to it the error or the pair of tables
  returned. \<open>qos_curves\<close> is only read.
\<close>

definition transform_qos_data ::
  "qd_row frame \<Rightarrow> qc_row frame \<Rightarrow>
     dr_row frame \<times> (error + (ic_row frame \<times> cc_row frame))" where
  "transform_qos_data qos_data qos_curves =
    (let qos_data' = \<lparr>columns = filter (\<lambda>c. c \<noteq> ''DATE'') (columns qos_data),
                      rows = drop_duplicates (map (\<lambda>r.
                        \<lparr>dr_LOCATION = qd_LOCATION r, dr_PRODUCT = qd_PRODUCT r,
                         dr_INVENTORY_CURVE_ID = qd_INVENTORY_CURVE_ID r,
                         dr_CONSUMPTION_PROFILE_CURVE_ID = qd_CONSUMPTION_PROFILE_CURVE_ID r\<rparr>)
                        (rows qos_data))\<rparr>;
         inventory_curves = filter (\<lambda>c. qc_CURVE_TYPE c = ''inventory'') (rows qos_curves);
         out_columns = filter (\<lambda>c. c \<noteq> ''CURVE_TYPE'' \<and> c \<noteq> ''CURVE_ID'') (columns qos_curves)
     in (qos_data',
      if \<not> validate_one_to_one dr_INVENTORY_CURVE_ID qc_CURVE_ID (rows qos_data') inventory_curves
      then Inl MergeError
      else
       let inventory_merged =
             merge_inner dr_INVENTORY_CURVE_ID qc_CURVE_ID (rows qos_data') inventory_curves;
           consumption_curves =
             filter (\<lambda>c. qc_CURVE_TYPE c = ''consumption_profile'') (rows qos_curves);
           location_consumption =
             drop_duplicates (map (\<lambda>r. (dr_LOCATION r, dr_CONSUMPTION_PROFILE_CURVE_ID r))
                                  (rows qos_data'))
       in if \<not> validate_one_to_one snd qc_CURVE_ID location_consumption consumption_curves
          then Inl MergeError
          else
           let consumption_merged =
                 merge_inner snd qc_CURVE_ID location_consumption consumption_curves
           in Inr (\<lparr>columns = columns qos_data' @ out_columns,
                    rows = map (\<lambda>(d, c).
                      \<lparr>ic_LOCATION = dr_LOCATION d, ic_PRODUCT = dr_PRODUCT d,
                       ic_INVENTORY_CURVE_ID = dr_INVENTORY_CURVE_ID d,
                       ic_CONSUMPTION_PROFILE_CURVE_ID = dr_CONSUMPTION_PROFILE_CURVE_ID d,
                       ic_WEEK_START = qc_WEEK_START c, ic_X = qc_X c, ic_Y = qc_Y c\<rparr>)
                      inventory_merged\<rparr>,
                   \<lparr>columns = [''LOCATION'', ''CONSUMPTION_PROFILE_CURVE_ID''] @ out_columns,
                    rows = map (\<lambda>((l, p), c).
                      \<lparr>cc_LOCATION = l, cc_CONSUMPTION_PROFILE_CURVE_ID = p,
                       cc_WEEK_START = qc_WEEK_START c, cc_X = qc_X c, cc_Y = qc_Y c\<rparr>)
                      consumption_merged\<rparr>)))"

subsection \<open>\<^verbatim>\<open>create_full_time_grid\<close>\<close>

definition required_columns_cc :: "string list" where
  "required_columns_cc =
     [''LOCATION'', ''CONSUMPTION_PROFILE_CURVE_ID'', ''WEEK_START'', ''X'', ''Y'']"

text \<open>
  The columns of the grid \<^verbatim>\<open>create_full_time_grid\<close> returns, which are also the columns
  \<^verbatim>\<open>calc_product_availability_ratio\<close> requires of its \<open>time_point_grid\<close>.
\<close>

definition required_columns_tpg :: "string list" where
  "required_columns_tpg = [''LOCATION'', ''CONSUMPTION_PROFILE_CURVE_ID'', ''WEEK_START'', ''X'']"

text \<open>
  The cross join of the \<open>(LOCATION, CONSUMPTION_PROFILE_CURVE_ID, WEEK_START)\<close> columns of the
  input, row by row as they are, with \<^verbatim>\<open>range(10080)\<close>.
\<close>

definition create_full_time_grid :: "cc_row pyobj \<Rightarrow> error + tpg_row frame" where
  "create_full_time_grid obj =
    (case obj of
       NotDataFrame \<Rightarrow> Inl TypeError
     | DataFrame consumption_curves \<Rightarrow>
        if set required_columns_cc \<noteq> set (columns consumption_curves) then Inl ValueError
        else Inr \<lparr>columns = required_columns_tpg,
                  rows = concat (map (\<lambda>r. map (\<lambda>x.
                    \<lparr>tpg_LOCATION = cc_LOCATION r,
                     tpg_CONSUMPTION_PROFILE_CURVE_ID = cc_CONSUMPTION_PROFILE_CURVE_ID r,
                     tpg_WEEK_START = cc_WEEK_START r, tpg_X = int x\<rparr>) [0..<10080])
                    (rows consumption_curves))\<rparr>)"

subsection \<open>\<^verbatim>\<open>interpolate_consumption_curves\<close>\<close>

text \<open>
  No type or column check here. The exploded samples are left-joined onto the grid, the result
  is sorted by \<open>(LOCATION, WEEK_START, X)\<close> (a stable sort; the curve id is not a sort key) and
  the whole \<open>Y\<close> column is interpolated at once, without grouping.
\<close>

definition interpolate_consumption_curves ::
  "cc_row frame \<Rightarrow> tpg_row frame \<Rightarrow> error + cci_row frame" where
  "interpolate_consumption_curves consumption_curves time_point_grid =
    (case check_boundary (map cc_X (rows consumption_curves)) of
       Some e \<Rightarrow> Inl e
     | None \<Rightarrow>
        (case explode_XY cc_X cc_Y (rows consumption_curves) of
           Inl e \<Rightarrow> Inl e
         | Inr exploded \<Rightarrow>
            let merged = merge_left
                  (\<lambda>g. (tpg_LOCATION g, tpg_CONSUMPTION_PROFILE_CURVE_ID g, tpg_WEEK_START g,
                        tpg_X g))
                  (\<lambda>(r, x, y). (cc_LOCATION r, cc_CONSUMPTION_PROFILE_CURVE_ID r,
                        cc_WEEK_START r, x))
                  (rows time_point_grid) exploded;
                sorted_rows = sort_key
                  (\<lambda>(g, m). (tpg_LOCATION g, tpg_WEEK_START g, tpg_X g)) merged;
                consumption_y = interpolate_linear
                  (map (\<lambda>(g, m). map_option (\<lambda>(r, x, y). y) m) sorted_rows)
            in Inr \<lparr>columns = columns time_point_grid @ [''CONSUMPTION_Y''],
                    rows = map2 (\<lambda>(g, m) v.
                      \<lparr>cci_LOCATION = tpg_LOCATION g,
                       cci_CONSUMPTION_PROFILE_CURVE_ID = tpg_CONSUMPTION_PROFILE_CURVE_ID g,
                       cci_WEEK_START = tpg_WEEK_START g, cci_X = tpg_X g,
                       cci_CONSUMPTION_Y = v\<rparr>) sorted_rows consumption_y\<rparr>))"

section \<open>\<^verbatim>\<open>_qos_metrics.py\<close>\<close>

subsection \<open>\<^verbatim>\<open>create_product_inventory\<close>\<close>

definition required_columns_ic :: "string list" where
  "required_columns_ic =
     [''LOCATION'', ''PRODUCT'', ''INVENTORY_CURVE_ID'', ''CONSUMPTION_PROFILE_CURVE_ID'',
      ''WEEK_START'', ''X'', ''Y'']"

definition columns_pig :: "string list" where
  "columns_pig =
     [''LOCATION'', ''WEEK_START'', ''X'', ''INVENTORY_CURVE_ID'', ''PRODUCT'',
      ''CONSUMPTION_PROFILE_CURVE_ID'', ''Y'']"

text \<open>
  \<open>curve_ids\<close> and \<open>time_points\<close> are both projections of the exploded table, so every time
  point has a curve id at its \<open>(LOCATION, WEEK_START)\<close> and the first left join leaves no row
  unmatched (lemma \<open>time_point_grid_no_unmatched\<close> below); it is written with \<open>merge_inner\<close>,
  which keeps \<open>INVENTORY_CURVE_ID\<close> and \<open>PRODUCT\<close> free of NaN in the row type. The second left
  join can leave \<open>CONSUMPTION_PROFILE_CURVE_ID\<close> and \<open>Y\<close> empty. The sort is by
  \<open>(INVENTORY_CURVE_ID, X)\<close>; \<open>Y\<close> is forward-filled within \<open>INVENTORY_CURVE_ID\<close>, then
  \<open>CONSUMPTION_PROFILE_CURVE_ID\<close> within \<open>(LOCATION, WEEK_START)\<close>.
\<close>

definition create_product_inventory :: "ic_row pyobj \<Rightarrow> error + pig_row frame" where
  "create_product_inventory obj =
    (case obj of
       NotDataFrame \<Rightarrow> Inl TypeError
     | DataFrame inventory_curves \<Rightarrow>
        if set required_columns_ic \<noteq> set (columns inventory_curves) then Inl ValueError
        else
         (case check_boundary (map ic_X (rows inventory_curves)) of
            Some e \<Rightarrow> Inl e
          | None \<Rightarrow>
             (case explode_XY ic_X ic_Y (rows inventory_curves) of
                Inl e \<Rightarrow> Inl e
              | Inr exploded \<Rightarrow>
                 let curve_ids = drop_duplicates (map (\<lambda>(r, x, y).
                       (ic_LOCATION r, ic_INVENTORY_CURVE_ID r, ic_PRODUCT r, ic_WEEK_START r))
                       exploded);
                     time_points = drop_duplicates (map (\<lambda>(r, x, y).
                       (ic_LOCATION r, ic_WEEK_START r, x)) exploded);
                     time_point_grid = merge_inner
                       (\<lambda>(l, w, x). (l, w)) (\<lambda>(l, i, p, w). (l, w)) time_points curve_ids;
                     merged = merge_left
                       (\<lambda>((l, w, x), (l', i, p, w')). (l, i, w, p, x))
                       (\<lambda>(r, x, y). (ic_LOCATION r, ic_INVENTORY_CURVE_ID r, ic_WEEK_START r,
                                     ic_PRODUCT r, x))
                       time_point_grid exploded;
                     product_inventory_grid = map (\<lambda>(((l, w, x), (l', i, p, w')), m).
                       \<lparr>pig_LOCATION = l, pig_WEEK_START = w, pig_X = x,
                        pig_INVENTORY_CURVE_ID = i, pig_PRODUCT = p,
                        pig_CONSUMPTION_PROFILE_CURVE_ID =
                          map_option (\<lambda>(r, x, y). ic_CONSUMPTION_PROFILE_CURVE_ID r) m,
                        pig_Y = map_option (\<lambda>(r, x, y). y) m\<rparr>) merged;
                     sorted_rows = sort_key (\<lambda>r. (pig_INVENTORY_CURVE_ID r, pig_X r))
                       product_inventory_grid;
                     filled_y = map2 (\<lambda>r v. r\<lparr>pig_Y := v\<rparr>) sorted_rows
                       (groupby_ffill pig_INVENTORY_CURVE_ID pig_Y sorted_rows);
                     filled_cpc = map2 (\<lambda>r v. r\<lparr>pig_CONSUMPTION_PROFILE_CURVE_ID := v\<rparr>)
                       filled_y
                       (groupby_ffill (\<lambda>r. (pig_LOCATION r, pig_WEEK_START r))
                          pig_CONSUMPTION_PROFILE_CURVE_ID filled_y)
                 in Inr \<lparr>columns = columns_pig, rows = filled_cpc\<rparr>)))"

subsection \<open>\<^verbatim>\<open>calc_product_availability_ratio\<close>\<close>

definition required_columns_pig :: "string list" where
  "required_columns_pig =
     [''LOCATION'', ''PRODUCT'', ''INVENTORY_CURVE_ID'', ''CONSUMPTION_PROFILE_CURVE_ID'',
      ''WEEK_START'', ''X'', ''Y'']"

definition required_columns_par :: "string list" where
  "required_columns_par =
     [''LOCATION'', ''CONSUMPTION_PROFILE_CURVE_ID'', ''WEEK_START'', ''X'', ''PA_RATIO'']"

text \<open>\<^verbatim>\<open>(product_inventory_grid['Y'] >= 1).astype(int)\<close>: a comparison with NaN is False.\<close>

definition product_in_stock :: "pig_row \<Rightarrow> int" where
  "product_in_stock r = (case pig_Y r of None \<Rightarrow> 0 | Some y \<Rightarrow> if y \<ge> 1 then 1 else 0)"

text \<open>
  The function assigns the new column \<open>PRODUCT_IN_STOCK\<close> to its argument
  \<open>product_inventory_grid\<close> itself, once the type and column checks have passed. The first
  component of the result is what the caller's frame holds afterwards when it was changed
  (every row paired with the value of the new column), and \<open>None\<close> when it was left alone.

  \<open>TOTAL_PRODUCT_COUNT\<close> is the number of distinct products of a \<open>(WEEK_START, LOCATION)\<close>
  group; \<open>PRODUCT_IN_STOCK\<close> is summed over the rows of a \<open>(LOCATION, WEEK_START, X)\<close> group.
  Every such group lies in a \<open>(WEEK_START, LOCATION)\<close> group of at least one product, so the
  divisor is never 0 and the left join of the two always matches.
\<close>

definition calc_product_availability_ratio ::
  "pig_row pyobj \<Rightarrow> tpg_row pyobj \<Rightarrow>
     (pig_row \<times> int) frame option \<times> (error + par_row frame)" where
  "calc_product_availability_ratio obj1 obj2 =
    (case obj1 of
       NotDataFrame \<Rightarrow> (None, Inl TypeError)
     | DataFrame product_inventory_grid \<Rightarrow>
    (case obj2 of
       NotDataFrame \<Rightarrow> (None, Inl TypeError)
     | DataFrame time_point_grid \<Rightarrow>
        if set required_columns_pig \<noteq> set (columns product_inventory_grid)
        then (None, Inl ValueError)
        else if set required_columns_tpg \<noteq> set (columns time_point_grid)
        then (None, Inl ValueError)
        else
         let pig = rows product_inventory_grid;
             distinct_products = map (\<lambda>k. (k, length (remdups (map pig_PRODUCT
                   (filter (\<lambda>r. (pig_WEEK_START r, pig_LOCATION r) = k) pig)))))
                 (group_keys (\<lambda>r. (pig_WEEK_START r, pig_LOCATION r)) pig);
             stocked = map (\<lambda>r. (r, product_in_stock r)) pig;
             product_inventory_grid' =
               \<lparr>columns = columns product_inventory_grid @ [''PRODUCT_IN_STOCK''],
                rows = stocked\<rparr>;
             products_in_stock = map (\<lambda>k. (k, sum_list (map snd
                   (filter (\<lambda>(r, s). (pig_LOCATION r, pig_WEEK_START r, pig_X r) = k) stocked))))
                 (group_keys (\<lambda>(r, s). (pig_LOCATION r, pig_WEEK_START r, pig_X r)) stocked)
         in (Some product_inventory_grid',
          if \<not> validate_many_to_one (\<lambda>((l, w, x), s). (l, w)) (\<lambda>((w, l), n). (l, w))
                  products_in_stock distinct_products
          then Inl MergeError
          else
           let par_data = map (\<lambda>(((l, w, x), s), m).
                   ((l, w, x), map_option (\<lambda>(k, n). real_of_int s / real n) m))
                 (merge_left (\<lambda>((l, w, x), s). (l, w)) (\<lambda>((w, l), n). (l, w))
                    products_in_stock distinct_products)
           in if \<not> validate_one_to_one
                     (\<lambda>g. (tpg_LOCATION g, tpg_WEEK_START g, tpg_X g)) fst
                     (rows time_point_grid) par_data
              then Inl MergeError
              else
               let merged = map (\<lambda>(g, m).
                       \<lparr>par_LOCATION = tpg_LOCATION g,
                        par_CONSUMPTION_PROFILE_CURVE_ID = tpg_CONSUMPTION_PROFILE_CURVE_ID g,
                        par_WEEK_START = tpg_WEEK_START g, par_X = tpg_X g,
                        par_PA_RATIO = (case m of None \<Rightarrow> None | Some (k, v) \<Rightarrow> v)\<rparr>)
                     (merge_left (\<lambda>g. (tpg_LOCATION g, tpg_WEEK_START g, tpg_X g)) fst
                        (rows time_point_grid) par_data);
                   sorted_rows = sort_key
                     (\<lambda>r. (par_LOCATION r, par_WEEK_START r, par_X r)) merged
               in Inr \<lparr>columns = required_columns_par,
                       rows = map2 (\<lambda>r v. r\<lparr>par_PA_RATIO := v\<rparr>) sorted_rows
                         (groupby_ffill (\<lambda>r. (par_LOCATION r, par_WEEK_START r))
                            par_PA_RATIO sorted_rows)\<rparr>)))"

subsection \<open>\<^verbatim>\<open>calc_quality_of_service\<close>\<close>

definition required_columns_cci :: "string list" where
  "required_columns_cci =
     [''LOCATION'', ''CONSUMPTION_PROFILE_CURVE_ID'', ''WEEK_START'', ''X'', ''CONSUMPTION_Y'']"

text \<open>
  \<open>QOS = PA_RATIO * CONSUMPTION_Y\<close> is NaN when either factor is, and
  \<^verbatim>\<open>groupby(['LOCATION', 'WEEK_START'])['QOS'].sum()\<close> skips NaN.
\<close>

definition qos_of :: "cci_row \<times> par_row option \<Rightarrow> real option" where
  "qos_of = (\<lambda>(c, m). case m of
       None \<Rightarrow> None
     | Some p \<Rightarrow> (case (par_PA_RATIO p, cci_CONSUMPTION_Y c) of
                   (Some a, Some y) \<Rightarrow> Some (a * y)
                 | _ \<Rightarrow> None))"

definition sum_skipna :: "real option list \<Rightarrow> real" where
  "sum_skipna vs = sum_list (map (\<lambda>v. case v of None \<Rightarrow> 0 | Some x \<Rightarrow> x) vs)"

definition calc_quality_of_service ::
  "cci_row pyobj \<Rightarrow> par_row pyobj \<Rightarrow> error + qos_row frame" where
  "calc_quality_of_service obj1 obj2 =
    (case obj1 of
       NotDataFrame \<Rightarrow> Inl TypeError
     | DataFrame consumption_curves_interp \<Rightarrow>
    (case obj2 of
       NotDataFrame \<Rightarrow> Inl TypeError
     | DataFrame product_availability_ratio \<Rightarrow>
        if set required_columns_cci \<noteq> set (columns consumption_curves_interp)
        then Inl ValueError
        else if set required_columns_par \<noteq> set (columns product_availability_ratio)
        then Inl ValueError
        else if \<not> validate_one_to_one
                  (\<lambda>c. (cci_LOCATION c, cci_CONSUMPTION_PROFILE_CURVE_ID c, cci_WEEK_START c,
                        cci_X c))
                  (\<lambda>p. (par_LOCATION p, par_CONSUMPTION_PROFILE_CURVE_ID p, par_WEEK_START p,
                        par_X p))
                  (rows consumption_curves_interp) (rows product_availability_ratio)
        then Inl MergeError
        else
         let par_consum_data = merge_left
               (\<lambda>c. (cci_LOCATION c, cci_CONSUMPTION_PROFILE_CURVE_ID c, cci_WEEK_START c,
                     cci_X c))
               (\<lambda>p. (par_LOCATION p, par_CONSUMPTION_PROFILE_CURVE_ID p, par_WEEK_START p,
                     par_X p))
               (rows consumption_curves_interp) (rows product_availability_ratio)
         in Inr \<lparr>columns = [''QOS''],
                 rows = map (\<lambda>(l, w).
                     \<lparr>qos_LOCATION = l, qos_WEEK_START = w,
                      qos_QOS = sum_skipna (map qos_of
                        (filter (\<lambda>(c, m). (cci_LOCATION c, cci_WEEK_START c) = (l, w))
                           par_consum_data))\<rparr>)
                   (group_keys (\<lambda>(c, m). (cci_LOCATION c, cci_WEEK_START c))
                      par_consum_data)\<rparr>))"

section \<open>Notions used in the statements\<close>

text \<open>The join keys of the per-minute tables.\<close>

definition cci_key :: "cci_row \<Rightarrow> string \<times> string \<times> string \<times> int" where
  "cci_key c = (cci_LOCATION c, cci_CONSUMPTION_PROFILE_CURVE_ID c, cci_WEEK_START c, cci_X c)"

definition par_key :: "par_row \<Rightarrow> string \<times> string \<times> string \<times> int" where
  "par_key p = (par_LOCATION p, par_CONSUMPTION_PROFILE_CURVE_ID p, par_WEEK_START p, par_X p)"

text \<open>
  \<open>PA_RATIO(minute)\<close> for the minute of a row of the interpolated consumption table: the
  ratio of the availability row with the same key.
\<close>

definition PA_RATIO_at :: "par_row list \<Rightarrow> cci_row \<Rightarrow> real option" where
  "PA_RATIO_at ps c =
     (case find (\<lambda>p. par_key p = cci_key c) ps of None \<Rightarrow> None | Some p \<Rightarrow> par_PA_RATIO p)"

definition pig_key3 :: "pig_row \<Rightarrow> string \<times> string \<times> int" where
  "pig_key3 r = (pig_LOCATION r, pig_WEEK_START r, pig_X r)"

definition tpg_key3 :: "tpg_row \<Rightarrow> string \<times> string \<times> int" where
  "tpg_key3 g = (tpg_LOCATION g, tpg_WEEK_START g, tpg_X g)"

text \<open>
  What \<^verbatim>\<open>calc_product_availability_ratio\<close> computes for a \<open>(LOCATION, WEEK_START, X)\<close> that
  occurs in the inventory grid: the number of its rows in stock over the number of distinct
  products of its \<open>(WEEK_START, LOCATION)\<close>.
\<close>

definition stock_ratio :: "pig_row list \<Rightarrow> string \<times> string \<times> int \<Rightarrow> real option" where
  "stock_ratio pig k =
     (if k \<in> pig_key3 ` set pig
      then Some (real_of_int (\<Sum>r\<leftarrow>filter (\<lambda>r. pig_key3 r = k) pig. product_in_stock r) /
                 real (length (remdups (map pig_PRODUCT
                   (filter (\<lambda>r. (pig_LOCATION r, pig_WEEK_START r) = (fst k, fst (snd k))) pig)))))
      else None)"

text \<open>The last non-NaN cell of a column, if any.\<close>

fun last_valid :: "'v option list \<Rightarrow> 'v option" where
  "last_valid [] = None"
| "last_valid (v # vs) = (case last_valid vs of None \<Rightarrow> v | Some w \<Rightarrow> Some w)"

text \<open>
  The tables inside \<^verbatim>\<open>create_product_inventory\<close>, named for the proofs: the exploded
  inventory curves, the key of the second left join, and \<open>product_inventory_grid\<close> as it is
  before sorting and filling.
\<close>

definition ic_exploded :: "ic_row list \<Rightarrow> (ic_row \<times> int \<times> real) list" where
  "ic_exploded rs = concat (map (\<lambda>r. map (\<lambda>(x, y). (r, x, y)) (zip (ic_X r) (ic_Y r))) rs)"

definition ic_key5 :: "ic_row \<times> int \<times> real \<Rightarrow> string \<times> string \<times> string \<times> string \<times> int" where
  "ic_key5 = (\<lambda>(r, x, y). (ic_LOCATION r, ic_INVENTORY_CURVE_ID r, ic_WEEK_START r,
                                     ic_PRODUCT r, x))"

definition merged_inventory_grid :: "ic_row list \<Rightarrow> pig_row list" where
  "merged_inventory_grid rs =
    (let exploded = ic_exploded rs;
         curve_ids = drop_duplicates (map (\<lambda>(r, x, y).
           (ic_LOCATION r, ic_INVENTORY_CURVE_ID r, ic_PRODUCT r, ic_WEEK_START r)) exploded);
         time_points = drop_duplicates (map (\<lambda>(r, x, y).
           (ic_LOCATION r, ic_WEEK_START r, x)) exploded);
         time_point_grid = merge_inner
           (\<lambda>(l, w, x). (l, w)) (\<lambda>(l, i, p, w). (l, w)) time_points curve_ids;
         merged = merge_left
           (\<lambda>((l, w, x), (l', i, p, w')). (l, i, w, p, x)) ic_key5 time_point_grid exploded
     in map (\<lambda>(((l, w, x), (l', i, p, w')), m).
           \<lparr>pig_LOCATION = l, pig_WEEK_START = w, pig_X = x,
            pig_INVENTORY_CURVE_ID = i, pig_PRODUCT = p,
            pig_CONSUMPTION_PROFILE_CURVE_ID =
              map_option (\<lambda>(r, x, y). ic_CONSUMPTION_PROFILE_CURVE_ID r) m,
            pig_Y = map_option (\<lambda>(r, x, y). y) m\<rparr>) merged)"

section \<open>Facts about the table operations\<close>

subsection \<open>Joins and groups\<close>

lemma set_drop_duplicates [simp]: "set (drop_duplicates xs) = set xs"
  by (simp add: drop_duplicates_def)

lemma distinct_drop_duplicates [simp]: "distinct (drop_duplicates xs)"
  by (simp add: drop_duplicates_def)

lemma merge_inner_Nil [simp]: "merge_inner lk rk [] rs = []"
  by (simp add: merge_inner_def)

lemma merge_inner_Cons [simp]:
  "merge_inner lk rk (l # ls) rs =
     map (Pair l) (filter (\<lambda>r. rk r = lk l) rs) @ merge_inner lk rk ls rs"
  by (simp add: merge_inner_def)

lemma set_merge_inner:
  "set (merge_inner lk rk ls rs) = {(l, r). l \<in> set ls \<and> r \<in> set rs \<and> rk r = lk l}"
  by (induction ls) auto

lemma distinct_merge_inner:
  "distinct ls \<Longrightarrow> distinct rs \<Longrightarrow> distinct (merge_inner lk rk ls rs)"
proof (induction ls)
  case Nil
  then show ?case by simp
next
  case (Cons l ls)
  have 1: "distinct (map (Pair l) (filter (\<lambda>r. rk r = lk l) rs))"
    using Cons.prems(2) by (simp add: distinct_map inj_on_def)
  have 2: "set (map (Pair l) (filter (\<lambda>r. rk r = lk l) rs)) \<inter> set (merge_inner lk rk ls rs) = {}"
    using Cons.prems(1) by (auto simp: set_merge_inner)
  from 1 2 Cons show ?case by simp
qed

lemma merge_left_Nil [simp]: "merge_left lk rk [] rs = []"
  by (simp add: merge_left_def)

lemma merge_left_Cons [simp]:
  "merge_left lk rk (l # ls) rs =
     (case filter (\<lambda>r. rk r = lk l) rs of
        [] \<Rightarrow> [(l, None)]
      | ms \<Rightarrow> map (\<lambda>m. (l, Some m)) ms) @ merge_left lk rk ls rs"
  by (simp add: merge_left_def)

lemma filter_single_find:
  "length (filter P xs) \<le> 1 \<Longrightarrow>
     filter P xs = (case find P xs of None \<Rightarrow> [] | Some x \<Rightarrow> [x])"
proof (induction xs)
  case Nil
  then show ?case by simp
next
  case (Cons x xs)
  show ?case
  proof (cases "P x")
    case True
    with Cons.prems have "filter P xs = []" by simp
    with True show ?thesis by simp
  next
    case False
    with Cons show ?thesis by simp
  qed
qed

lemma find_filter_single:
  assumes "length (filter P xs) \<le> 1"
  shows "(case filter P xs of [] \<Rightarrow> [(l, None)] | ms \<Rightarrow> map (\<lambda>m. (l, Some m)) ms)
       = [(l, find P xs)]"
  by (cases "find P xs") (simp_all add: filter_single_find[OF assms])

lemma merge_left_single_match:
  assumes "\<And>l. l \<in> set ls \<Longrightarrow> length (filter (\<lambda>r. rk r = lk l) rs) \<le> 1"
  shows "merge_left lk rk ls rs = map (\<lambda>l. (l, find (\<lambda>r. rk r = lk l) rs)) ls"
  using assms by (induction ls) (simp_all add: find_filter_single)

lemma filter_key_distinct:
  "distinct (map rk rs) \<Longrightarrow> length (filter (\<lambda>r. rk r = k) rs) \<le> 1"
proof (induction rs)
  case Nil
  then show ?case by simp
next
  case (Cons r rs)
  show ?case
  proof (cases "rk r = k")
    case True
    from Cons.prems have "rk r \<notin> rk ` set rs" by simp
    with True have "\<forall>x \<in> set rs. rk x \<noteq> k" by (metis imageI)
    then have "filter (\<lambda>r. rk r = k) rs = []"
      by (simp add: filter_empty_conv)
    with True show ?thesis by simp
  next
    case False
    with Cons show ?thesis by simp
  qed
qed


lemma merge_left_distinct_right:
  "distinct (map rk rs) \<Longrightarrow>
     merge_left lk rk ls rs = map (\<lambda>l. (l, find (\<lambda>r. rk r = lk l) rs)) ls"
  by (rule merge_left_single_match) (rule filter_key_distinct)

lemma find_Some_D: "find P xs = Some x \<Longrightarrow> x \<in> set xs \<and> P x"
  by (induction xs) (auto split: if_splits)

lemma find_None_D: "find P xs = None \<Longrightarrow> x \<in> set xs \<Longrightarrow> \<not> P x"
  by (induction xs) (auto split: if_splits)

lemma find_unique:
  assumes "x \<in> set xs" "P x" "\<And>y. y \<in> set xs \<Longrightarrow> P y \<Longrightarrow> y = x"
  shows "find P xs = Some x"
proof (cases "find P xs")
  case None
  with assms(1,2) show ?thesis by (auto dest: find_None_D)
next
  case (Some y)
  then have "y \<in> set xs \<and> P y" by (rule find_Some_D)
  with assms(3) Some show ?thesis by simp
qed

lemma distinct_group_keys [simp]: "distinct (group_keys key rs)"
  by (simp add: group_keys_def)

lemma set_group_keys [simp]: "set (group_keys key rs) = key ` set rs"
  by (simp add: group_keys_def)

lemma sorted_group_keys [simp]: "sorted (group_keys key rs)"
  by (simp add: group_keys_def)



subsection \<open>Forward fill\<close>

lemma length_ffill [simp]: "length (ffill seen kvs) = length kvs"
proof (induction kvs arbitrary: seen)
  case Nil
  then show ?case by simp
next
  case (Cons kv kvs)
  obtain k v where "kv = (k, v)" by (cases kv)
  with Cons show ?case by (cases v) simp_all
qed

lemma length_groupby_ffill [simp]: "length (groupby_ffill key col rs) = length rs"
  by (simp add: groupby_ffill_def)

lemma ffill_nth:
  "n < length rs \<Longrightarrow>
   ffill seen (map (\<lambda>r. (key r, col r)) rs) ! n =
     (case col (rs ! n) of
        Some v \<Rightarrow> Some v
      | None \<Rightarrow>
         (case last_valid (map col (filter (\<lambda>r. key r = key (rs ! n)) (take n rs))) of
            None \<Rightarrow> seen (key (rs ! n))
          | Some w \<Rightarrow> Some w))"
proof (induction rs arbitrary: seen n)
  case Nil
  then show ?case by simp
next
  case (Cons r rs)
  show ?case
  proof (cases n)
    case 0
    then show ?thesis by (cases "col r") auto
  next
    case (Suc m)
    with Cons.prems have m: "m < length rs" by simp
    show ?thesis
    proof (cases "col r")
      case None
      then show ?thesis using Suc Cons.IH[OF m, of seen]
        by (simp split: option.splits)
    next
      case (Some v)
      have "ffill seen (map (\<lambda>r. (key r, col r)) (r # rs)) ! n
              = ffill (seen(key r \<mapsto> v)) (map (\<lambda>r. (key r, col r)) rs) ! m"
        using Some Suc by simp
      also note Cons.IH[OF m, of "seen(key r \<mapsto> v)"]
      finally show ?thesis using Some Suc
        by (simp split: option.splits)
    qed
  qed
qed

lemma groupby_ffill_nth:
  "n < length rs \<Longrightarrow>
   groupby_ffill key col rs ! n =
     (case col (rs ! n) of
        Some v \<Rightarrow> Some v
      | None \<Rightarrow> last_valid (map col (filter (\<lambda>r. key r = key (rs ! n)) (take n rs))))"
  by (simp add: groupby_ffill_def ffill_nth split: option.splits)

lemma last_valid_None_iff: "last_valid vs = None \<longleftrightarrow> (\<forall>v \<in> set vs. v = None)"
  by (induction vs) (auto split: option.splits)

lemma last_valid_Some_D:
  "last_valid vs = Some w \<Longrightarrow>
     \<exists>pre post. vs = pre @ Some w # post \<and> (\<forall>v \<in> set post. v = None)"
proof (induction vs)
  case Nil
  then show ?case by simp
next
  case (Cons v vs)
  show ?case
  proof (cases "last_valid vs")
    case None
    with Cons.prems have "v = Some w" by simp
    moreover from None have "\<forall>v \<in> set vs. v = None" by (simp add: last_valid_None_iff)
    ultimately show ?thesis by (intro exI[of _ "[]"] exI[of _ vs]) simp
  next
    case (Some u)
    with Cons.prems have "u = w" by simp
    with Some Cons.IH obtain pre post where
      "vs = pre @ Some w # post" "\<forall>v \<in> set post. v = None" by auto
    then show ?thesis by (intro exI[of _ "v # pre"] exI[of _ post]) simp
  qed
qed

subsection \<open>Sorted tables with unique keys\<close>

lemma sorted_distinct_before:
  assumes "sorted (map f rs)" "n < length rs" "g \<in> set rs" "f g < f (rs ! n)"
  shows "g \<in> set (take n rs)"
proof -
  from assms(3) obtain m where m: "m < length rs" "rs ! m = g"
    by (auto simp: in_set_conv_nth)
  have "m < n"
  proof (rule ccontr)
    assume "\<not> m < n"
    then have "n \<le> m" by simp
    with assms(1) m(1) have "map f rs ! n \<le> map f rs ! m"
      by (intro sorted_nth_mono) auto
    with m assms(2,4) show False by simp
  qed
  with m show ?thesis by (auto simp: in_set_conv_nth)
qed

lemma sorted_distinct_take_less:
  assumes "sorted (map f rs)" "distinct (map f rs)" "n < length rs" "g \<in> set (take n rs)"
  shows "f g < f (rs ! n)"
proof -
  from assms(4) obtain m where m: "m < n" "m < length rs" "rs ! m = g"
    by (auto simp: in_set_conv_nth)
  with assms(1,3) have "map f rs ! m \<le> map f rs ! n"
    by (intro sorted_nth_mono) auto
  moreover from assms(2,3) m have "map f rs ! m \<noteq> map f rs ! n"
    using nth_eq_iff_index_eq[of "map f rs" m n] by simp
  ultimately show ?thesis using m assms(3) by simp
qed

section \<open>Properties\<close>

subsection \<open>Column checks\<close>

text \<open>
  C10. Every stage that checks its input's columns compares the set of column names with the
  required set for equality, so a DataFrame with any other column set is rejected with
  ValueError: a missing column and an additional column alike.
\<close>

theorem column_check_exact:
  "(set (columns cc) \<noteq> set required_columns_cc
      \<longrightarrow> create_full_time_grid (DataFrame cc) = Inl ValueError) \<and>
   (set (columns ic) \<noteq> set required_columns_ic
      \<longrightarrow> create_product_inventory (DataFrame ic) = Inl ValueError) \<and>
   (set (columns pig) \<noteq> set required_columns_pig \<or>
    set (columns tpg) \<noteq> set required_columns_tpg
      \<longrightarrow> calc_product_availability_ratio (DataFrame pig) (DataFrame tpg)
            = (None, Inl ValueError)) \<and>
   (set (columns cci) \<noteq> set required_columns_cci \<or>
    set (columns par) \<noteq> set required_columns_par
      \<longrightarrow> calc_quality_of_service (DataFrame cci) (DataFrame par) = Inl ValueError)"
proof (intro conjI impI)
  assume "set (columns cc) \<noteq> set required_columns_cc"
  then show "create_full_time_grid (DataFrame cc) = Inl ValueError"
    by (auto simp: create_full_time_grid_def)
next
  assume "set (columns ic) \<noteq> set required_columns_ic"
  then show "create_product_inventory (DataFrame ic) = Inl ValueError"
    by (auto simp: create_product_inventory_def)
next
  assume "set (columns pig) \<noteq> set required_columns_pig \<or>
          set (columns tpg) \<noteq> set required_columns_tpg"
  then show "calc_product_availability_ratio (DataFrame pig) (DataFrame tpg)
               = (None, Inl ValueError)"
    by (auto simp: calc_product_availability_ratio_def)
next
  assume "set (columns cci) \<noteq> set required_columns_cci \<or>
          set (columns par) \<noteq> set required_columns_par"
  then show "calc_quality_of_service (DataFrame cci) (DataFrame par) = Inl ValueError"
    by (auto simp: calc_quality_of_service_def)
qed

lemma extra_column_differs:
  "c \<notin> set cs \<Longrightarrow> set (columns \<lparr>columns = cs @ [c], rows = rs\<rparr>) \<noteq> set cs"
  by auto

theorem column_check_exact_witness:
  "create_full_time_grid
     (DataFrame \<lparr>columns = required_columns_cc @ [''EXTRA''], rows = []\<rparr>) = Inl ValueError \<and>
   create_product_inventory
     (DataFrame \<lparr>columns = required_columns_ic @ [''EXTRA''], rows = []\<rparr>) = Inl ValueError \<and>
   calc_product_availability_ratio
     (DataFrame \<lparr>columns = required_columns_pig @ [''EXTRA''], rows = []\<rparr>)
     (DataFrame \<lparr>columns = required_columns_tpg, rows = []\<rparr>) = (None, Inl ValueError) \<and>
   calc_quality_of_service
     (DataFrame \<lparr>columns = required_columns_cci, rows = []\<rparr>)
     (DataFrame \<lparr>columns = required_columns_par @ [''EXTRA''], rows = []\<rparr>) = Inl ValueError"
proof -
  have h1: "set (columns \<lparr>columns = required_columns_cc @ [''EXTRA''], rows = []::cc_row list\<rparr>)
              \<noteq> set required_columns_cc"
    by (rule extra_column_differs) (simp add: required_columns_cc_def)
  have h2: "set (columns \<lparr>columns = required_columns_ic @ [''EXTRA''], rows = []::ic_row list\<rparr>)
              \<noteq> set required_columns_ic"
    by (rule extra_column_differs) (simp add: required_columns_ic_def)
  have h3: "set (columns \<lparr>columns = required_columns_pig @ [''EXTRA''], rows = []::pig_row list\<rparr>)
              \<noteq> set required_columns_pig"
    by (rule extra_column_differs) (simp add: required_columns_pig_def)
  have h4: "set (columns \<lparr>columns = required_columns_par @ [''EXTRA''], rows = []::par_row list\<rparr>)
              \<noteq> set required_columns_par"
    by (rule extra_column_differs) (simp add: required_columns_par_def)
  show ?thesis
    using h1 h2 h3 h4
      column_check_exact
        [of "\<lparr>columns = required_columns_cc @ [''EXTRA''], rows = []\<rparr>"
            "\<lparr>columns = required_columns_ic @ [''EXTRA''], rows = []\<rparr>"
            "\<lparr>columns = required_columns_pig @ [''EXTRA''], rows = []\<rparr>"
            "\<lparr>columns = required_columns_tpg, rows = []\<rparr>"
            "\<lparr>columns = required_columns_cci, rows = []\<rparr>"
            "\<lparr>columns = required_columns_par @ [''EXTRA''], rows = []\<rparr>"]
    by blast
qed

subsection \<open>Boundary minutes\<close>

lemma check_boundary_missing:
  assumes "xs \<in> set xss" and "0 \<notin> set xs \<or> 10079 \<notin> set xs"
  shows "check_boundary xss = Some ValueError"
proof (cases "xs = []")
  case True
  with assms(1) show ?thesis by (auto simp: check_boundary_def list_ex_iff)
next
  case False
  then have "Min (set xs) \<in> set xs" and "Max (set xs) \<in> set xs"
    by (simp_all add: Min_in Max_in)
  with assms(2) have "Min (set xs) \<noteq> 0 \<or> Max (set xs) \<noteq> 10079"
    by metis
  with assms(1) show ?thesis
    by (auto simp: check_boundary_def list_ex_iff)
qed

lemma check_boundary_ok:
  assumes "list_all (\<lambda>xs. xs \<noteq> [] \<and> Min (set xs) = 0 \<and> Max (set xs) = 10079) xss"
  shows "check_boundary xss = None"
  using assms by (auto simp: check_boundary_def list_ex_iff list_all_iff)

text \<open>
  C6. A table with a record whose minutes lack 0 or lack 10079 makes
  \<^verbatim>\<open>create_product_inventory\<close> (called on a DataFrame) and \<^verbatim>\<open>interpolate_consumption_curves\<close>
  raise ValueError; when the minutes of every record have minimum 0 and maximum 10079 the
  boundary check raises nothing.
\<close>

theorem boundary_check_value_error:
  "(list_ex (\<lambda>r. 0 \<notin> set (ic_X r) \<or> 10079 \<notin> set (ic_X r)) (rows ic)
      \<longrightarrow> create_product_inventory (DataFrame ic) = Inl ValueError) \<and>
   (list_ex (\<lambda>r. 0 \<notin> set (cc_X r) \<or> 10079 \<notin> set (cc_X r)) (rows cc)
      \<longrightarrow> interpolate_consumption_curves cc tpg = Inl ValueError) \<and>
   (list_all (\<lambda>xs. xs \<noteq> [] \<and> Min (set xs) = 0 \<and> Max (set xs) = 10079) xss
      \<longrightarrow> check_boundary xss = None)"
proof (intro conjI impI)
  assume "list_ex (\<lambda>r. 0 \<notin> set (ic_X r) \<or> 10079 \<notin> set (ic_X r)) (rows ic)"
  then obtain r where "r \<in> set (rows ic)" "0 \<notin> set (ic_X r) \<or> 10079 \<notin> set (ic_X r)"
    by (auto simp: list_ex_iff)
  then have "check_boundary (map ic_X (rows ic)) = Some ValueError"
    by (intro check_boundary_missing[of "ic_X r"]) auto
  then show "create_product_inventory (DataFrame ic) = Inl ValueError"
    by (simp add: create_product_inventory_def)
next
  assume "list_ex (\<lambda>r. 0 \<notin> set (cc_X r) \<or> 10079 \<notin> set (cc_X r)) (rows cc)"
  then obtain r where "r \<in> set (rows cc)" "0 \<notin> set (cc_X r) \<or> 10079 \<notin> set (cc_X r)"
    by (auto simp: list_ex_iff)
  then have "check_boundary (map cc_X (rows cc)) = Some ValueError"
    by (intro check_boundary_missing[of "cc_X r"]) auto
  then show "interpolate_consumption_curves cc tpg = Inl ValueError"
    by (simp add: interpolate_consumption_curves_def)
next
  assume "list_all (\<lambda>xs. xs \<noteq> [] \<and> Min (set xs) = 0 \<and> Max (set xs) = 10079) xss"
  then show "check_boundary xss = None" by (rule check_boundary_ok)
qed

theorem boundary_check_value_error_witness:
  "create_product_inventory (DataFrame
      \<lparr>columns = required_columns_ic,
       rows = [\<lparr>ic_LOCATION = ''A'', ic_PRODUCT = ''P1'', ic_INVENTORY_CURVE_ID = ''I1'',
          ic_CONSUMPTION_PROFILE_CURVE_ID = ''C1'', ic_WEEK_START = ''2023-06-12'',
          ic_X = [5, 10079], ic_Y = [3, 2]\<rparr>]\<rparr>) = Inl ValueError \<and>
   interpolate_consumption_curves
      \<lparr>columns = required_columns_cc,
       rows = [\<lparr>cc_LOCATION = ''A'', cc_CONSUMPTION_PROFILE_CURVE_ID = ''C1'',
          cc_WEEK_START = ''2023-06-12'', cc_X = [0, 5000], cc_Y = [0, 1]\<rparr>]\<rparr>
      \<lparr>columns = required_columns_tpg, rows = []\<rparr> = Inl ValueError \<and>
   check_boundary [[0, 5000, 10079], [0, 10079]] = None"
  using boundary_check_value_error
    [of "\<lparr>columns = required_columns_ic,
       rows = [\<lparr>ic_LOCATION = ''A'', ic_PRODUCT = ''P1'', ic_INVENTORY_CURVE_ID = ''I1'',
          ic_CONSUMPTION_PROFILE_CURVE_ID = ''C1'', ic_WEEK_START = ''2023-06-12'',
          ic_X = [5, 10079], ic_Y = [3, 2]\<rparr>]\<rparr>"
        "\<lparr>columns = required_columns_cc,
       rows = [\<lparr>cc_LOCATION = ''A'', cc_CONSUMPTION_PROFILE_CURVE_ID = ''C1'',
          cc_WEEK_START = ''2023-06-12'', cc_X = [0, 5000], cc_Y = [0, 1]\<rparr>]\<rparr>"
        "\<lparr>columns = required_columns_tpg, rows = []\<rparr>"
        "[[0, 5000, 10079], [0, 10079]]"]
  by simp

subsection \<open>The time grid\<close>

lemma create_full_time_grid_length:
  "create_full_time_grid (DataFrame cc) = Inr g \<Longrightarrow>
     length (rows g) = 10080 * length (rows cc)"
  by (auto simp: create_full_time_grid_def length_concat comp_def sum_list_triv
           split: if_splits)



subsection \<open>Joining demand records with their curves\<close>

lemma transform_qos_data_duplicate_curve:
  assumes "c1 \<in> set (rows qc)" "c2 \<in> set (rows qc)" "c1 \<noteq> c2"
    and "qc_CURVE_TYPE c1 = ''inventory''" "qc_CURVE_TYPE c2 = ''inventory''"
    and "qc_CURVE_ID c1 = qc_CURVE_ID c2"
  shows "snd (transform_qos_data qd qc) = Inl MergeError"
proof -
  let ?inv = "filter (\<lambda>c. qc_CURVE_TYPE c = ''inventory'') (rows qc)"
  have "c1 \<in> set ?inv" "c2 \<in> set ?inv" using assms by auto
  with assms(3,6) have "\<not> inj_on qc_CURVE_ID (set ?inv)"
    by (meson inj_onD)
  then have "\<not> distinct (map qc_CURVE_ID ?inv)"
    by (simp add: distinct_map)
  then show ?thesis
    by (simp add: transform_qos_data_def validate_one_to_one_def Let_def)
qed

text \<open>
  C3, at an input with a missing curve. The only demand record names inventory curve \<open>I1\<close>,
  and the curve table holds no inventory curve at all. The inner join validates only the
  uniqueness of the keys: the call raises nothing and returns an inventory table with no row,
  the record dropped.
\<close>

theorem transform_qos_data_missing_curve:
  "(case snd (transform_qos_data
       \<lparr>columns = [''DATE'', ''LOCATION'', ''PRODUCT'', ''INVENTORY_CURVE_ID'',
                   ''CONSUMPTION_PROFILE_CURVE_ID''],
        rows = [\<lparr>qd_DATE = ''2023-06-12'', qd_LOCATION = ''A'', qd_PRODUCT = ''P1'',
                 qd_INVENTORY_CURVE_ID = ''I1'', qd_CONSUMPTION_PROFILE_CURVE_ID = ''C1''\<rparr>]\<rparr>
       \<lparr>columns = [''CURVE_ID'', ''CURVE_TYPE'', ''WEEK_START'', ''X'', ''Y''],
        rows = [\<lparr>qc_CURVE_ID = ''C1'', qc_CURVE_TYPE = ''consumption_profile'',
                 qc_WEEK_START = ''2023-06-12'', qc_X = [0, 10079], qc_Y = [0, 1]\<rparr>]\<rparr>) of
      Inl e \<Rightarrow> False
    | Inr (inventory_curves, consumption_curves) \<Rightarrow>
        rows inventory_curves = [] \<and> length (rows consumption_curves) = 1)"
  by (simp add: transform_qos_data_def validate_one_to_one_def merge_inner_def
        drop_duplicates_def Let_def)

subsection \<open>In-place changes of the arguments\<close>



subsection \<open>Samples that break the invariant away from the boundary\<close>






subsection \<open>The quality of service\<close>

lemma sum_skipna_map:
  "sum_skipna (map f xs) = (\<Sum>x\<leftarrow>xs. case f x of None \<Rightarrow> 0 | Some v \<Rightarrow> v)"
  by (simp add: sum_skipna_def comp_def)

lemma calc_quality_of_service_rows:
  assumes cols: "set (columns cci) = set required_columns_cci"
                "set (columns par) = set required_columns_par"
    and dl: "distinct (map cci_key (rows cci))"
    and dr: "distinct (map par_key (rows par))"
  shows "calc_quality_of_service (DataFrame cci) (DataFrame par) =
     Inr \<lparr>columns = [''QOS''],
          rows = map (\<lambda>(l, w). \<lparr>qos_LOCATION = l, qos_WEEK_START = w,
              qos_QOS = (\<Sum>c\<leftarrow>filter (\<lambda>c. (cci_LOCATION c, cci_WEEK_START c) = (l, w)) (rows cci).
                 case qos_of (c, find (\<lambda>p. par_key p = cci_key c) (rows par)) of
                   None \<Rightarrow> 0 | Some v \<Rightarrow> v)\<rparr>)
            (group_keys (\<lambda>c. (cci_LOCATION c, cci_WEEK_START c)) (rows cci))\<rparr>"
proof -
  let ?lk = "\<lambda>c. (cci_LOCATION c, cci_CONSUMPTION_PROFILE_CURVE_ID c, cci_WEEK_START c, cci_X c)"
  let ?rk = "\<lambda>p. (par_LOCATION p, par_CONSUMPTION_PROFILE_CURVE_ID p, par_WEEK_START p, par_X p)"
  have lk: "?lk = cci_key" and rk: "?rk = par_key"
    by (auto simp: cci_key_def par_key_def)
  have v: "validate_one_to_one ?lk ?rk (rows cci) (rows par)"
    unfolding lk rk using dl dr by (simp add: validate_one_to_one_def)
  have m: "merge_left ?lk ?rk (rows cci) (rows par)
             = map (\<lambda>c. (c, find (\<lambda>p. par_key p = cci_key c) (rows par))) (rows cci)"
    unfolding lk rk using dr by (rule merge_left_distinct_right)
  have g: "group_keys (\<lambda>(c, m). (cci_LOCATION c, cci_WEEK_START c))
             (map (\<lambda>c. (c, find (\<lambda>p. par_key p = cci_key c) (rows par))) (rows cci))
           = group_keys (\<lambda>c. (cci_LOCATION c, cci_WEEK_START c)) (rows cci)"
    by (simp add: group_keys_def comp_def)
  have f: "filter (\<lambda>(c, m). (cci_LOCATION c, cci_WEEK_START c) = k)
             (map (\<lambda>c. (c, find (\<lambda>p. par_key p = cci_key c) (rows par))) (rows cci))
           = map (\<lambda>c. (c, find (\<lambda>p. par_key p = cci_key c) (rows par)))
               (filter (\<lambda>c. (cci_LOCATION c, cci_WEEK_START c) = k) (rows cci))" for k
    by (simp add: filter_map comp_def)
  show ?thesis
    unfolding calc_quality_of_service_def
    using cols v
    apply (simp only: pyobj.case if_not_P if_False simp_thms Let_def m g)
    apply (simp add: sum_skipna_map filter_map comp_def case_prod_unfold)
    done
qed


text \<open>
  C1. When the two tables have the required columns, their keys
  \<open>(LOCATION, CONSUMPTION_PROFILE_CURVE_ID, WEEK_START, X)\<close> match one-to-one (unique in each
  table, the same keys in both) and no cell is NaN, \<^verbatim>\<open>calc_quality_of_service\<close> returns a
  table with exactly one row per \<open>(LOCATION, WEEK_START)\<close> of the consumption table, and the
  \<open>QOS\<close> of that row is the sum, over the rows (minutes) of that location and week, of
  \<open>PA_RATIO\<close> times \<open>CONSUMPTION_Y\<close>.
\<close>

theorem calc_quality_of_service_sum:
  assumes cols: "set (columns cci) = set required_columns_cci"
                "set (columns par) = set required_columns_par"
    and dl: "distinct (map cci_key (rows cci))"
    and dr: "distinct (map par_key (rows par))"
    and same: "set (map cci_key (rows cci)) = set (map par_key (rows par))"
    and nn: "list_all (\<lambda>c. cci_CONSUMPTION_Y c \<noteq> None) (rows cci)"
            "list_all (\<lambda>p. par_PA_RATIO p \<noteq> None) (rows par)"
  shows "\<exists>out. calc_quality_of_service (DataFrame cci) (DataFrame par) = Inr out \<and>
     distinct (map (\<lambda>q. (qos_LOCATION q, qos_WEEK_START q)) (rows out)) \<and>
     set (map (\<lambda>q. (qos_LOCATION q, qos_WEEK_START q)) (rows out))
       = set (map (\<lambda>c. (cci_LOCATION c, cci_WEEK_START c)) (rows cci)) \<and>
     (\<forall>c \<in> set (rows cci). PA_RATIO_at (rows par) c \<noteq> None) \<and>
     (\<forall>q \<in> set (rows out). qos_QOS q =
        (\<Sum>c\<leftarrow>filter (\<lambda>c. (cci_LOCATION c, cci_WEEK_START c)
                            = (qos_LOCATION q, qos_WEEK_START q)) (rows cci).
           the (PA_RATIO_at (rows par) c) * the (cci_CONSUMPTION_Y c)))"
proof -
  let ?out = "\<lparr>columns = [''QOS''],
          rows = map (\<lambda>(l, w). \<lparr>qos_LOCATION = l, qos_WEEK_START = w,
              qos_QOS = (\<Sum>c\<leftarrow>filter (\<lambda>c. (cci_LOCATION c, cci_WEEK_START c) = (l, w)) (rows cci).
                 case qos_of (c, find (\<lambda>p. par_key p = cci_key c) (rows par)) of
                   None \<Rightarrow> 0 | Some v \<Rightarrow> v)\<rparr>)
            (group_keys (\<lambda>c. (cci_LOCATION c, cci_WEEK_START c)) (rows cci))\<rparr>"
  have out: "calc_quality_of_service (DataFrame cci) (DataFrame par) = Inr ?out"
    using cols dl dr by (rule calc_quality_of_service_rows)
  have idx: "map (\<lambda>q. (qos_LOCATION q, qos_WEEK_START q)) (rows ?out)
               = group_keys (\<lambda>c. (cci_LOCATION c, cci_WEEK_START c)) (rows cci)"
    by (simp add: comp_def case_prod_unfold)
  have pa: "\<exists>p a. find (\<lambda>p. par_key p = cci_key c) (rows par) = Some p \<and>
                  par_PA_RATIO p = Some a \<and> PA_RATIO_at (rows par) c = Some a"
    if c: "c \<in> set (rows cci)" for c
  proof -
    from c same have "cci_key c \<in> par_key ` set (rows par)" by auto
    then obtain p where p: "p \<in> set (rows par)" "par_key p = cci_key c" by auto
    have "find (\<lambda>p. par_key p = cci_key c) (rows par) = Some p"
    proof (rule find_unique)
      fix p' assume "p' \<in> set (rows par)" "par_key p' = cci_key c"
      with p dr show "p' = p" by (metis distinct_map inj_onD)
    qed (use p in auto)
    moreover from nn(2) p(1) obtain a where "par_PA_RATIO p = Some a"
      by (auto simp: list_all_iff)
    ultimately show ?thesis by (simp add: PA_RATIO_at_def)
  qed
  have summand: "(case qos_of (c, find (\<lambda>p. par_key p = cci_key c) (rows par)) of
                 None \<Rightarrow> 0 | Some v \<Rightarrow> v)
              = the (PA_RATIO_at (rows par) c) * the (cci_CONSUMPTION_Y c)"
    if c: "c \<in> set (rows cci)" for c
  proof -
    from pa[OF c] obtain p a where
      "find (\<lambda>p. par_key p = cci_key c) (rows par) = Some p" "par_PA_RATIO p = Some a"
      "PA_RATIO_at (rows par) c = Some a" by blast
    moreover from nn(1) c obtain y where "cci_CONSUMPTION_Y c = Some y"
      by (auto simp: list_all_iff)
    ultimately show ?thesis by (simp add: qos_of_def)
  qed
  have sums: "qos_QOS q =
        (\<Sum>c\<leftarrow>filter (\<lambda>c. (cci_LOCATION c, cci_WEEK_START c)
                            = (qos_LOCATION q, qos_WEEK_START q)) (rows cci).
           the (PA_RATIO_at (rows par) c) * the (cci_CONSUMPTION_Y c))"
    if "q \<in> set (rows ?out)" for q
  proof -
    from that obtain l w where q: "q = \<lparr>qos_LOCATION = l, qos_WEEK_START = w,
              qos_QOS = (\<Sum>c\<leftarrow>filter (\<lambda>c. (cci_LOCATION c, cci_WEEK_START c) = (l, w)) (rows cci).
                 case qos_of (c, find (\<lambda>p. par_key p = cci_key c) (rows par)) of
                   None \<Rightarrow> 0 | Some v \<Rightarrow> v)\<rparr>"
      by auto
    have "(\<Sum>c\<leftarrow>filter (\<lambda>c. (cci_LOCATION c, cci_WEEK_START c) = (l, w)) (rows cci).
                 case qos_of (c, find (\<lambda>p. par_key p = cci_key c) (rows par)) of
                   None \<Rightarrow> 0 | Some v \<Rightarrow> v)
          = (\<Sum>c\<leftarrow>filter (\<lambda>c. (cci_LOCATION c, cci_WEEK_START c) = (l, w)) (rows cci).
                 the (PA_RATIO_at (rows par) c) * the (cci_CONSUMPTION_Y c))"
      by (intro arg_cong[where f = sum_list] map_cong refl summand) simp
    with q show ?thesis by simp
  qed
  show ?thesis
  proof (intro exI[of _ ?out] conjI ballI)
    show "calc_quality_of_service (DataFrame cci) (DataFrame par) = Inr ?out" by (rule out)
    show "distinct (map (\<lambda>q. (qos_LOCATION q, qos_WEEK_START q)) (rows ?out))"
      unfolding idx by simp
    show "set (map (\<lambda>q. (qos_LOCATION q, qos_WEEK_START q)) (rows ?out))
            = set (map (\<lambda>c. (cci_LOCATION c, cci_WEEK_START c)) (rows cci))"
      unfolding idx by simp
  next
    fix c assume "c \<in> set (rows cci)"
    from pa[OF this] show "PA_RATIO_at (rows par) c \<noteq> None" by auto
  next
    fix q assume "q \<in> set (rows ?out)"
    then show "qos_QOS q =
        (\<Sum>c\<leftarrow>filter (\<lambda>c. (cci_LOCATION c, cci_WEEK_START c)
                            = (qos_LOCATION q, qos_WEEK_START q)) (rows cci).
           the (PA_RATIO_at (rows par) c) * the (cci_CONSUMPTION_Y c))"
      by (rule sums)
  qed
qed

theorem calc_quality_of_service_sum_witness:
  "\<exists>out. calc_quality_of_service
      (DataFrame \<lparr>columns = required_columns_cci,
         rows = [\<lparr>cci_LOCATION = ''A'', cci_CONSUMPTION_PROFILE_CURVE_ID = ''C1'',
                  cci_WEEK_START = ''2023-06-12'', cci_X = 0, cci_CONSUMPTION_Y = Some (1 / 2)\<rparr>,
                 \<lparr>cci_LOCATION = ''A'', cci_CONSUMPTION_PROFILE_CURVE_ID = ''C1'',
                  cci_WEEK_START = ''2023-06-12'', cci_X = 1, cci_CONSUMPTION_Y = Some (1 / 2)\<rparr>]\<rparr>)
      (DataFrame \<lparr>columns = required_columns_par,
         rows = [\<lparr>par_LOCATION = ''A'', par_CONSUMPTION_PROFILE_CURVE_ID = ''C1'',
                  par_WEEK_START = ''2023-06-12'', par_X = 0, par_PA_RATIO = Some 1\<rparr>,
                 \<lparr>par_LOCATION = ''A'', par_CONSUMPTION_PROFILE_CURVE_ID = ''C1'',
                  par_WEEK_START = ''2023-06-12'', par_X = 1, par_PA_RATIO = Some (1 / 2)\<rparr>]\<rparr>)
      = Inr out \<and>
     map (\<lambda>q. (qos_LOCATION q, qos_WEEK_START q, qos_QOS q)) (rows out)
       = [(''A'', ''2023-06-12'', 3 / 4)]"
proof -
  let ?cci = "\<lparr>columns = required_columns_cci,
         rows = [\<lparr>cci_LOCATION = ''A'', cci_CONSUMPTION_PROFILE_CURVE_ID = ''C1'',
                  cci_WEEK_START = ''2023-06-12'', cci_X = 0, cci_CONSUMPTION_Y = Some (1 / 2)\<rparr>,
                 \<lparr>cci_LOCATION = ''A'', cci_CONSUMPTION_PROFILE_CURVE_ID = ''C1'',
                  cci_WEEK_START = ''2023-06-12'', cci_X = 1, cci_CONSUMPTION_Y = Some (1 / 2)\<rparr>]\<rparr>"
  let ?par = "\<lparr>columns = required_columns_par,
         rows = [\<lparr>par_LOCATION = ''A'', par_CONSUMPTION_PROFILE_CURVE_ID = ''C1'',
                  par_WEEK_START = ''2023-06-12'', par_X = 0, par_PA_RATIO = Some 1\<rparr>,
                 \<lparr>par_LOCATION = ''A'', par_CONSUMPTION_PROFILE_CURVE_ID = ''C1'',
                  par_WEEK_START = ''2023-06-12'', par_X = 1, par_PA_RATIO = Some (1 / 2)\<rparr>]\<rparr>"
  have h1: "set (columns ?cci) = set required_columns_cci" by simp
  have h2: "set (columns ?par) = set required_columns_par" by simp
  have h3: "distinct (map cci_key (rows ?cci))" by (simp add: cci_key_def)
  have h4: "distinct (map par_key (rows ?par))" by (simp add: par_key_def)
  have h5: "set (map cci_key (rows ?cci)) = set (map par_key (rows ?par))"
    by (simp add: cci_key_def par_key_def)
  have h6: "list_all (\<lambda>c. cci_CONSUMPTION_Y c \<noteq> None) (rows ?cci)"
    by (simp del: not_None_eq)
  have h7: "list_all (\<lambda>p. par_PA_RATIO p \<noteq> None) (rows ?par)"
    by (simp del: not_None_eq)
  from calc_quality_of_service_sum[OF h1 h2 h3 h4 h5 h6 h7]
  obtain out where out: "calc_quality_of_service (DataFrame ?cci) (DataFrame ?par) = Inr out"
    and d: "distinct (map (\<lambda>q. (qos_LOCATION q, qos_WEEK_START q)) (rows out))"
    and idx: "set (map (\<lambda>q. (qos_LOCATION q, qos_WEEK_START q)) (rows out))
                = set (map (\<lambda>c. (cci_LOCATION c, cci_WEEK_START c)) (rows ?cci))"
    and q: "\<forall>q \<in> set (rows out). qos_QOS q =
        (\<Sum>c\<leftarrow>filter (\<lambda>c. (cci_LOCATION c, cci_WEEK_START c)
                            = (qos_LOCATION q, qos_WEEK_START q)) (rows ?cci).
           the (PA_RATIO_at (rows ?par) c) * the (cci_CONSUMPTION_Y c))"
    by blast
  from idx have s: "set (map (\<lambda>q. (qos_LOCATION q, qos_WEEK_START q)) (rows out))
                      = {(''A'', ''2023-06-12'')}" by simp
  from d have "length (map (\<lambda>q. (qos_LOCATION q, qos_WEEK_START q)) (rows out))
                 = card (set (map (\<lambda>q. (qos_LOCATION q, qos_WEEK_START q)) (rows out)))"
    by (rule distinct_card[symmetric])
  with s have "length (rows out) = 1" by simp
  then obtain q0 where r: "rows out = [q0]"
    by (cases "rows out") auto
  with s have k: "qos_LOCATION q0 = ''A''" "qos_WEEK_START q0 = ''2023-06-12''" by auto
  from q r k have "qos_QOS q0 = 3 / 4"
    by (simp add: PA_RATIO_at_def par_key_def cci_key_def)
  with out r k show ?thesis by simp
qed

subsection \<open>The product availability ratio\<close>

lemma find_map_key:
  "distinct ks \<Longrightarrow> find (\<lambda>e. fst e = k) (map (\<lambda>k. (k, v k)) ks)
     = (if k \<in> set ks then Some (k, v k) else None)"
  by (induction ks) auto

lemma calc_product_availability_ratio_rows:
  assumes cols: "set (columns pigf) = set required_columns_pig"
                "set (columns tpgf) = set required_columns_tpg"
    and dg: "distinct (map tpg_key3 (rows tpgf))"
  shows "snd (calc_product_availability_ratio (DataFrame pigf) (DataFrame tpgf)) =
    (let sorted_rows = sort_key (\<lambda>r. (par_LOCATION r, par_WEEK_START r, par_X r))
          (map (\<lambda>g. \<lparr>par_LOCATION = tpg_LOCATION g,
                       par_CONSUMPTION_PROFILE_CURVE_ID = tpg_CONSUMPTION_PROFILE_CURVE_ID g,
                       par_WEEK_START = tpg_WEEK_START g, par_X = tpg_X g,
                       par_PA_RATIO = stock_ratio (rows pigf) (tpg_key3 g)\<rparr>) (rows tpgf))
     in Inr \<lparr>columns = required_columns_par,
             rows = map2 (\<lambda>r v. r\<lparr>par_PA_RATIO := v\<rparr>) sorted_rows
               (groupby_ffill (\<lambda>r. (par_LOCATION r, par_WEEK_START r))
                  par_PA_RATIO sorted_rows)\<rparr>)"
proof -
  define pig where "pig = rows pigf"
  define S where "S k = (\<Sum>r\<leftarrow>filter (\<lambda>r. pig_key3 r = k) pig. product_in_stock r)" for k
  define N where "N k = length (remdups (map pig_PRODUCT
                   (filter (\<lambda>r. (pig_WEEK_START r, pig_LOCATION r) = k) pig)))" for k
  define gk3 where "gk3 = group_keys pig_key3 pig"
  define gk2 where "gk2 = group_keys (\<lambda>r. (pig_WEEK_START r, pig_LOCATION r)) pig"
  define stocked where "stocked = map (\<lambda>r. (r, product_in_stock r)) pig"
  define dp where "dp = map (\<lambda>k. (k, N k)) gk2"
  define pis where "pis = map (\<lambda>k. (k, S k)) gk3"
  have k3: "(\<lambda>x. (pig_LOCATION x, pig_WEEK_START x, pig_X x)) = pig_key3"
    by (simp add: pig_key3_def fun_eq_iff)
  have dp_eq: "map (\<lambda>k. (k, length (remdups (map pig_PRODUCT
                   (filter (\<lambda>r. (pig_WEEK_START r, pig_LOCATION r) = k) pig)))))
                 (group_keys (\<lambda>r. (pig_WEEK_START r, pig_LOCATION r)) pig) = dp"
    by (simp add: dp_def N_def gk2_def)
  have gk3_eq: "group_keys (\<lambda>(r, s). (pig_LOCATION r, pig_WEEK_START r, pig_X r)) stocked = gk3"
    by (simp add: gk3_def stocked_def group_keys_def comp_def k3)
  have S_eq: "sum_list (map snd
                   (filter (\<lambda>(r, s). (pig_LOCATION r, pig_WEEK_START r, pig_X r) = k) stocked))
              = S k" for k
    by (simp add: S_def stocked_def filter_map comp_def pig_key3_def)
  have pis_eq: "map (\<lambda>k. (k, sum_list (map snd
                   (filter (\<lambda>(r, s). (pig_LOCATION r, pig_WEEK_START r, pig_X r) = k) stocked))))
                 (group_keys (\<lambda>(r, s). (pig_LOCATION r, pig_WEEK_START r, pig_X r)) stocked) = pis"
    by (simp add: pis_def S_eq gk3_eq)
  have d_dp: "distinct (map (\<lambda>((w, l), n). (l, w)) dp)"
    by (simp add: dp_def comp_def gk2_def distinct_map inj_on_def)
  have find_dp: "find (\<lambda>d. (\<lambda>((w, l), n). (l, w)) d = (l, w)) dp = Some ((w, l), N (w, l))"
    if "(w, l) \<in> set gk2" for l w
    by (rule find_unique) (use that in \<open>auto simp: dp_def\<close>)
  have in_gk2: "(w, l) \<in> set gk2" if "(l, w, x) \<in> set gk3" for l w x
    using that by (auto simp: gk3_def gk2_def pig_key3_def)
  have m1: "merge_left (\<lambda>((l, w, x), s). (l, w)) (\<lambda>((w, l), n). (l, w)) pis dp
            = map (\<lambda>k. ((k, S k), Some ((fst (snd k), fst k), N (fst (snd k), fst k)))) gk3"
  proof -
    have "merge_left (\<lambda>((l, w, x), s). (l, w)) (\<lambda>((w, l), n). (l, w)) pis dp
          = map (\<lambda>e. (e, find (\<lambda>d. (\<lambda>((w, l), n). (l, w)) d = (\<lambda>((l, w, x), s). (l, w)) e) dp)) pis"
      using d_dp by (rule merge_left_distinct_right)
    also have "\<dots> = map (\<lambda>k. ((k, S k), Some ((fst (snd k), fst k), N (fst (snd k), fst k)))) gk3"
      unfolding pis_def map_map comp_def
    proof (rule map_cong[OF refl])
      fix k assume k: "k \<in> set gk3"
      obtain l w x where [simp]: "k = (l, w, x)" by (cases k)
      from k have "(w, l) \<in> set gk2" by (auto dest: in_gk2)
      from find_dp[OF this]
      show "((k, S k), find (\<lambda>d. (case d of (x, xa) \<Rightarrow> (case x of (w, l) \<Rightarrow> \<lambda>n. (l, w)) xa) =
                     (case (k, S k) of (x, xa) \<Rightarrow> (case x of (l, xa) \<Rightarrow> case xa of (w, x) \<Rightarrow> \<lambda>s. (l, w)) xa)) dp)
            = ((k, S k), Some ((fst (snd k), fst k), N (fst (snd k), fst k)))"
        by simp
    qed
    finally show ?thesis .
  qed
  define ratio where "ratio k = real_of_int (S k) / real (N (fst (snd k), fst k))" for k
  define par_data where "par_data = map (\<lambda>k. (k, Some (ratio k))) gk3"
  have pd: "map (\<lambda>(((l, w, x), s), m).
                   ((l, w, x), map_option (\<lambda>(k, n). real_of_int s / real n) m))
                 (merge_left (\<lambda>((l, w, x), s). (l, w)) (\<lambda>((w, l), n). (l, w)) pis dp) = par_data"
    unfolding m1 par_data_def by (simp add: comp_def case_prod_unfold ratio_def)
  have v2: "validate_one_to_one (\<lambda>g. (tpg_LOCATION g, tpg_WEEK_START g, tpg_X g)) fst
              (rows tpgf) par_data"
    using dg by (simp add: validate_one_to_one_def par_data_def comp_def gk3_def tpg_key3_def[abs_def])
  have sr: "stock_ratio pig k = (if k \<in> set gk3 then Some (ratio k) else None)" for k
    by (auto simp: stock_ratio_def gk3_def ratio_def S_def N_def case_prod_unfold
             intro!: arg_cong[where f = length] arg_cong[where f = remdups]
                     arg_cong[where f = "map pig_PRODUCT"] filter_cong)
  have m2: "map (\<lambda>(g, m). \<lparr>par_LOCATION = tpg_LOCATION g,
                        par_CONSUMPTION_PROFILE_CURVE_ID = tpg_CONSUMPTION_PROFILE_CURVE_ID g,
                        par_WEEK_START = tpg_WEEK_START g, par_X = tpg_X g,
                        par_PA_RATIO = (case m of None \<Rightarrow> None | Some (k, v) \<Rightarrow> v)\<rparr>)
                     (merge_left (\<lambda>g. (tpg_LOCATION g, tpg_WEEK_START g, tpg_X g)) fst
                        (rows tpgf) par_data)
            = map (\<lambda>g. \<lparr>par_LOCATION = tpg_LOCATION g,
                       par_CONSUMPTION_PROFILE_CURVE_ID = tpg_CONSUMPTION_PROFILE_CURVE_ID g,
                       par_WEEK_START = tpg_WEEK_START g, par_X = tpg_X g,
                       par_PA_RATIO = stock_ratio pig (tpg_key3 g)\<rparr>) (rows tpgf)"
  proof -
    have d: "distinct (map fst par_data)"
      by (simp add: par_data_def comp_def gk3_def)
    have f: "find (\<lambda>e. fst e = k) par_data = (if k \<in> set gk3 then Some (k, Some (ratio k)) else None)" for k
      unfolding par_data_def by (rule find_map_key) (simp add: gk3_def)
    show ?thesis
      unfolding merge_left_distinct_right[OF d]
      by (simp add: comp_def f sr tpg_key3_def)
  qed
  show ?thesis
    unfolding calc_product_availability_ratio_def
    using cols
    apply (simp only: pyobj.case if_not_P if_False simp_thms Let_def snd_conv)
    apply (fold pig_def)
    apply (fold stocked_def)
    apply (simp only: dp_eq pis_eq)
    apply (simp only: pd)
    apply (simp only: m2 v2 d_dp validate_many_to_one_def if_False not_True_eq_False not_not simp_thms)
    done
qed


lemma create_full_time_grid_rows:
  "set (columns cc) = set required_columns_cc \<Longrightarrow>
   create_full_time_grid (DataFrame cc) =
     Inr \<lparr>columns = required_columns_tpg,
          rows = concat (map (\<lambda>r. map (\<lambda>x.
                    \<lparr>tpg_LOCATION = cc_LOCATION r,
                     tpg_CONSUMPTION_PROFILE_CURVE_ID = cc_CONSUMPTION_PROFILE_CURVE_ID r,
                     tpg_WEEK_START = cc_WEEK_START r, tpg_X = int x\<rparr>) [0..<10080]) (rows cc))\<rparr>"
  by (simp add: create_full_time_grid_def)

lemma full_grid_keys_distinct:
  assumes "distinct (map (\<lambda>r. (cc_LOCATION r, cc_WEEK_START r)) rs)"
  shows "distinct (map tpg_key3 (concat (map (\<lambda>r. map (\<lambda>x.
                    \<lparr>tpg_LOCATION = cc_LOCATION r,
                     tpg_CONSUMPTION_PROFILE_CURVE_ID = cc_CONSUMPTION_PROFILE_CURVE_ID r,
                     tpg_WEEK_START = cc_WEEK_START r, tpg_X = int x\<rparr>) [0..<n]) rs)))"
  using assms
proof (induction rs)
  case Nil
  then show ?case by simp
next
  case (Cons r rs)
  have 1: "distinct (map tpg_key3 (map (\<lambda>x.
                    \<lparr>tpg_LOCATION = cc_LOCATION r,
                     tpg_CONSUMPTION_PROFILE_CURVE_ID = cc_CONSUMPTION_PROFILE_CURVE_ID r,
                     tpg_WEEK_START = cc_WEEK_START r, tpg_X = int x\<rparr>) [0..<n]))"
    by (simp add: distinct_map inj_on_def tpg_key3_def)
  have 2: "(cc_LOCATION r, cc_WEEK_START r) \<notin> (\<lambda>r. (cc_LOCATION r, cc_WEEK_START r)) ` set rs"
    using Cons.prems by simp
  have 3: "set (map tpg_key3 (map (\<lambda>x.
                    \<lparr>tpg_LOCATION = cc_LOCATION r,
                     tpg_CONSUMPTION_PROFILE_CURVE_ID = cc_CONSUMPTION_PROFILE_CURVE_ID r,
                     tpg_WEEK_START = cc_WEEK_START r, tpg_X = int x\<rparr>) [0..<n]))
      \<inter> set (map tpg_key3 (concat (map (\<lambda>r. map (\<lambda>x.
                    \<lparr>tpg_LOCATION = cc_LOCATION r,
                     tpg_CONSUMPTION_PROFILE_CURVE_ID = cc_CONSUMPTION_PROFILE_CURVE_ID r,
                     tpg_WEEK_START = cc_WEEK_START r, tpg_X = int x\<rparr>) [0..<n]) rs))) = {}"
    using 2 by (auto simp: tpg_key3_def image_iff)
  from Cons have "distinct (map tpg_key3 (concat (map (\<lambda>r. map (\<lambda>x.
                    \<lparr>tpg_LOCATION = cc_LOCATION r,
                     tpg_CONSUMPTION_PROFILE_CURVE_ID = cc_CONSUMPTION_PROFILE_CURVE_ID r,
                     tpg_WEEK_START = cc_WEEK_START r, tpg_X = int x\<rparr>) [0..<n]) rs)))"
    by simp
  with 1 3 show ?case by (simp del: map_map)
qed

lemma in_set_map2:
  assumes "length xs = length ys"
  shows "z \<in> set (map2 f xs ys) \<longleftrightarrow> (\<exists>n < length xs. z = f (xs ! n) (ys ! n))"
proof -
  have l: "length (map2 f xs ys) = length xs" using assms by simp
  have n: "map2 f xs ys ! n = f (xs ! n) (ys ! n)" if "n < length xs" for n
    using that assms by simp
  show ?thesis
    unfolding in_set_conv_nth l using n by auto
qed

lemma ffilled_keeps_valid:
  assumes "r \<in> set rs" "col r = Some v" "upd r (Some v) = r"
  shows "r \<in> set (map2 upd rs (groupby_ffill key col rs))"
proof -
  from assms(1) obtain n where n: "n < length rs" "rs ! n = r"
    by (auto simp: in_set_conv_nth)
  then have "groupby_ffill key col rs ! n = Some v"
    using assms(2) by (simp add: groupby_ffill_nth)
  with n assms(3) have "r = upd (rs ! n) (groupby_ffill key col rs ! n)" by simp
  with n(1) have "\<exists>n < length rs. r = upd (rs ! n) (groupby_ffill key col rs ! n)"
    by blast
  then show ?thesis by (subst in_set_map2) simp_all
qed

lemma calc_product_availability_ratio_matched:
  assumes cols: "set (columns pigf) = set required_columns_pig"
                "set (columns tpgf) = set required_columns_tpg"
    and dg: "distinct (map tpg_key3 (rows tpgf))"
    and g: "g \<in> set (rows tpgf)" and v: "stock_ratio (rows pigf) (tpg_key3 g) = Some v"
  shows "\<exists>par. snd (calc_product_availability_ratio (DataFrame pigf) (DataFrame tpgf)) = Inr par \<and>
           \<lparr>par_LOCATION = tpg_LOCATION g,
            par_CONSUMPTION_PROFILE_CURVE_ID = tpg_CONSUMPTION_PROFILE_CURVE_ID g,
            par_WEEK_START = tpg_WEEK_START g, par_X = tpg_X g,
            par_PA_RATIO = Some v\<rparr> \<in> set (rows par)"
proof -
  let ?mk = "\<lambda>g. \<lparr>par_LOCATION = tpg_LOCATION g,
                       par_CONSUMPTION_PROFILE_CURVE_ID = tpg_CONSUMPTION_PROFILE_CURVE_ID g,
                       par_WEEK_START = tpg_WEEK_START g, par_X = tpg_X g,
                       par_PA_RATIO = stock_ratio (rows pigf) (tpg_key3 g)\<rparr>"
  let ?S = "sort_key (\<lambda>r. (par_LOCATION r, par_WEEK_START r, par_X r)) (map ?mk (rows tpgf))"
  have "?mk g \<in> set ?S" using g by simp
  then have "?mk g \<in> set (map2 (\<lambda>r v. r\<lparr>par_PA_RATIO := v\<rparr>) ?S
               (groupby_ffill (\<lambda>r. (par_LOCATION r, par_WEEK_START r)) par_PA_RATIO ?S))"
    by (rule ffilled_keeps_valid[where v = v]) (simp_all add: v)
  then show ?thesis
    unfolding calc_product_availability_ratio_rows[OF cols dg] Let_def
    by (simp add: v)
qed

text \<open>
  C2, at an input where one product has two inventory curves. Product \<open>P1\<close> is stocked at
  location \<open>A\<close> under the curves \<open>I1\<close> and \<open>I2\<close>, both sampled at 0 and 10079 with stock 1,
  so the boundary invariant holds. The densified inventory has two rows in stock at minute 0
  and one distinct product: on the full time grid of the location's consumption curve the
  ratio of minute 0 is 2.
\<close>

theorem pa_ratio_above_one:
  "(case create_product_inventory (DataFrame
      \<lparr>columns = required_columns_ic,
       rows = [\<lparr>ic_LOCATION = ''A'', ic_PRODUCT = ''P1'', ic_INVENTORY_CURVE_ID = ''I1'',
                ic_CONSUMPTION_PROFILE_CURVE_ID = ''C1'', ic_WEEK_START = ''2023-06-12'',
                ic_X = [0, 10079], ic_Y = [1, 1]\<rparr>,
               \<lparr>ic_LOCATION = ''A'', ic_PRODUCT = ''P1'', ic_INVENTORY_CURVE_ID = ''I2'',
                ic_CONSUMPTION_PROFILE_CURVE_ID = ''C1'', ic_WEEK_START = ''2023-06-12'',
                ic_X = [0, 10079], ic_Y = [1, 1]\<rparr>]\<rparr>) of
      Inl e \<Rightarrow> False
    | Inr pig \<Rightarrow>
       (case create_full_time_grid (DataFrame
          \<lparr>columns = required_columns_cc,
           rows = [\<lparr>cc_LOCATION = ''A'', cc_CONSUMPTION_PROFILE_CURVE_ID = ''C1'',
                    cc_WEEK_START = ''2023-06-12'', cc_X = [0, 10079], cc_Y = [0, 1]\<rparr>]\<rparr>) of
          Inl e \<Rightarrow> False
        | Inr tpg \<Rightarrow>
           (case snd (calc_product_availability_ratio (DataFrame pig) (DataFrame tpg)) of
              Inl e \<Rightarrow> False
            | Inr par \<Rightarrow> list_ex (\<lambda>r. par_X r = 0 \<and> par_PA_RATIO r = Some 2) (rows par))))"
proof -
  let ?pig = "\<lparr>columns = columns_pig,
        rows = [\<lparr>pig_LOCATION = ''A'', pig_WEEK_START = ''2023-06-12'', pig_X = 0,
                 pig_INVENTORY_CURVE_ID = ''I1'', pig_PRODUCT = ''P1'',
                 pig_CONSUMPTION_PROFILE_CURVE_ID = Some ''C1'', pig_Y = Some 1\<rparr>,
                \<lparr>pig_LOCATION = ''A'', pig_WEEK_START = ''2023-06-12'', pig_X = 10079,
                 pig_INVENTORY_CURVE_ID = ''I1'', pig_PRODUCT = ''P1'',
                 pig_CONSUMPTION_PROFILE_CURVE_ID = Some ''C1'', pig_Y = Some 1\<rparr>,
                \<lparr>pig_LOCATION = ''A'', pig_WEEK_START = ''2023-06-12'', pig_X = 0,
                 pig_INVENTORY_CURVE_ID = ''I2'', pig_PRODUCT = ''P1'',
                 pig_CONSUMPTION_PROFILE_CURVE_ID = Some ''C1'', pig_Y = Some 1\<rparr>,
                \<lparr>pig_LOCATION = ''A'', pig_WEEK_START = ''2023-06-12'', pig_X = 10079,
                 pig_INVENTORY_CURVE_ID = ''I2'', pig_PRODUCT = ''P1'',
                 pig_CONSUMPTION_PROFILE_CURVE_ID = Some ''C1'', pig_Y = Some 1\<rparr>]\<rparr>"
  let ?ccs = "[\<lparr>cc_LOCATION = ''A'', cc_CONSUMPTION_PROFILE_CURVE_ID = ''C1'',
                    cc_WEEK_START = ''2023-06-12'', cc_X = [0, 10079], cc_Y = [0, 1]\<rparr>]"
  let ?tpg = "\<lparr>columns = required_columns_tpg,
          rows = concat (map (\<lambda>r. map (\<lambda>x.
                    \<lparr>tpg_LOCATION = cc_LOCATION r,
                     tpg_CONSUMPTION_PROFILE_CURVE_ID = cc_CONSUMPTION_PROFILE_CURVE_ID r,
                     tpg_WEEK_START = cc_WEEK_START r, tpg_X = int x\<rparr>) [0..<10080]) ?ccs)\<rparr>"
  let ?g = "\<lparr>tpg_LOCATION = ''A'', tpg_CONSUMPTION_PROFILE_CURVE_ID = ''C1'',
            tpg_WEEK_START = ''2023-06-12'', tpg_X = 0\<rparr>"
  have pig: "create_product_inventory (DataFrame
      \<lparr>columns = required_columns_ic,
       rows = [\<lparr>ic_LOCATION = ''A'', ic_PRODUCT = ''P1'', ic_INVENTORY_CURVE_ID = ''I1'',
                ic_CONSUMPTION_PROFILE_CURVE_ID = ''C1'', ic_WEEK_START = ''2023-06-12'',
                ic_X = [0, 10079], ic_Y = [1, 1]\<rparr>,
               \<lparr>ic_LOCATION = ''A'', ic_PRODUCT = ''P1'', ic_INVENTORY_CURVE_ID = ''I2'',
                ic_CONSUMPTION_PROFILE_CURVE_ID = ''C1'', ic_WEEK_START = ''2023-06-12'',
                ic_X = [0, 10079], ic_Y = [1, 1]\<rparr>]\<rparr>) = Inr ?pig"
    by (simp add: create_product_inventory_def required_columns_ic_def check_boundary_def
        explode_XY_def drop_duplicates_def merge_left_def groupby_ffill_def)
  have tpg: "create_full_time_grid (DataFrame \<lparr>columns = required_columns_cc, rows = ?ccs\<rparr>)
               = Inr ?tpg"
    by (simp add: create_full_time_grid_def)
  have c1: "set (columns ?pig) = set required_columns_pig"
    by (auto simp: columns_pig_def required_columns_pig_def)
  have c2: "set (columns ?tpg) = set required_columns_tpg" by simp
  have dg: "distinct (map tpg_key3 (rows ?tpg))"
    unfolding frame.select_convs by (rule full_grid_keys_distinct) simp
  have "(0::nat) \<in> set [0..<10080]" by simp
  then have "(\<lambda>x. \<lparr>tpg_LOCATION = ''A'', tpg_CONSUMPTION_PROFILE_CURVE_ID = ''C1'',
            tpg_WEEK_START = ''2023-06-12'', tpg_X = int x\<rparr>) 0 \<in>
          (\<lambda>x. \<lparr>tpg_LOCATION = ''A'', tpg_CONSUMPTION_PROFILE_CURVE_ID = ''C1'',
            tpg_WEEK_START = ''2023-06-12'', tpg_X = int x\<rparr>) ` set [0..<10080]"
    by (rule imageI)
  then have g: "?g \<in> set (rows ?tpg)" by simp
  have v: "stock_ratio (rows ?pig) (tpg_key3 ?g) = Some 2"
    by (simp add: stock_ratio_def tpg_key3_def pig_key3_def product_in_stock_def)
  from calc_product_availability_ratio_matched[OF c1 c2 dg g v]
  obtain par where par: "snd (calc_product_availability_ratio (DataFrame ?pig) (DataFrame ?tpg)) = Inr par"
    "\<lparr>par_LOCATION = ''A'', par_CONSUMPTION_PROFILE_CURVE_ID = ''C1'',
            par_WEEK_START = ''2023-06-12'', par_X = 0, par_PA_RATIO = Some 2\<rparr> \<in> set (rows par)"
    by auto
  from par(2) have "list_ex (\<lambda>r. par_X r = 0 \<and> par_PA_RATIO r = Some 2) (rows par)"
    unfolding list_ex_iff by (intro bexI[of _ "\<lparr>par_LOCATION = ''A'', par_CONSUMPTION_PROFILE_CURVE_ID = ''C1'',
            par_WEEK_START = ''2023-06-12'', par_X = 0, par_PA_RATIO = Some 2\<rparr>"]) simp_all
  with par(1) show ?thesis
    unfolding pig tpg by simp
qed

subsection \<open>Forward fill of the inventory\<close>

lemma check_boundary_None_D:
  assumes "check_boundary xss = None" "xs \<in> set xss"
  shows "xs \<noteq> []" "Min (set xs) = 0" "Max (set xs) = 10079"
  using assms by (auto simp: check_boundary_def list_ex_iff split: if_splits)

lemma create_product_inventory_rows:
  assumes cols: "set (columns ic) = set required_columns_ic"
    and bnd: "check_boundary (map ic_X (rows ic)) = None"
    and len: "\<forall>r \<in> set (rows ic). length (ic_X r) = length (ic_Y r)"
  shows "create_product_inventory (DataFrame ic) =
    Inr \<lparr>columns = columns_pig,
         rows =
           (let sorted_rows = sort_key (\<lambda>r. (pig_INVENTORY_CURVE_ID r, pig_X r))
                  (merged_inventory_grid (rows ic));
                filled_y = map2 (\<lambda>r v. r\<lparr>pig_Y := v\<rparr>) sorted_rows
                  (groupby_ffill pig_INVENTORY_CURVE_ID pig_Y sorted_rows)
            in map2 (\<lambda>r v. r\<lparr>pig_CONSUMPTION_PROFILE_CURVE_ID := v\<rparr>) filled_y
                 (groupby_ffill (\<lambda>r. (pig_LOCATION r, pig_WEEK_START r))
                    pig_CONSUMPTION_PROFILE_CURVE_ID filled_y))\<rparr>"
proof -
  have e: "explode_XY ic_X ic_Y (rows ic) = Inr (ic_exploded (rows ic))"
    using len by (simp add: explode_XY_def ic_exploded_def list_ex_iff)
  have k: "(\<lambda>(r, x, y). (ic_LOCATION r, ic_INVENTORY_CURVE_ID r, ic_WEEK_START r,
                                     ic_PRODUCT r, x)) = ic_key5"
    by (simp add: ic_key5_def)
  show ?thesis
    unfolding create_product_inventory_def
    using cols bnd
    by (simp add: e k merged_inventory_grid_def Let_def)
qed

lemma set_ic_exploded:
  "set (ic_exploded rs) = {(r, x, y). r \<in> set rs \<and> (x, y) \<in> set (zip (ic_X r) (ic_Y r))}"
  by (auto simp: ic_exploded_def)

lemma distinct_ic_exploded_keys:
  assumes "distinct (map ic_INVENTORY_CURVE_ID rs)"
    and "\<forall>r \<in> set rs. distinct (ic_X r)"
  shows "distinct (map ic_key5 (ic_exploded rs))"
  using assms
proof (induction rs)
  case Nil
  then show ?case by (simp add: ic_exploded_def)
next
  case (Cons r rs)
  have split: "ic_exploded (r # rs)
                 = map (\<lambda>(x, y). (r, x, y)) (zip (ic_X r) (ic_Y r)) @ ic_exploded rs"
    by (simp add: ic_exploded_def)
  have "map ic_key5 (map (\<lambda>(x, y). (r, x, y)) (zip (ic_X r) (ic_Y r)))
          = map (\<lambda>x. (ic_LOCATION r, ic_INVENTORY_CURVE_ID r, ic_WEEK_START r, ic_PRODUCT r, x))
              (map fst (zip (ic_X r) (ic_Y r)))"
    by (simp add: ic_key5_def case_prod_unfold comp_def)
  moreover have "distinct (map fst (zip (ic_X r) (ic_Y r)))"
    using Cons.prems(2) by (simp add: map_fst_zip_take)
  ultimately have 1: "distinct (map ic_key5 (map (\<lambda>(x, y). (r, x, y)) (zip (ic_X r) (ic_Y r))))"
    by (simp add: distinct_map inj_on_def del: map_map)
  have 2: "distinct (map ic_key5 (ic_exploded rs))"
    using Cons by simp
  have "ic_INVENTORY_CURVE_ID r \<notin> ic_INVENTORY_CURVE_ID ` set rs"
    using Cons.prems(1) by simp
  then have 3: "set (map ic_key5 (map (\<lambda>(x, y). (r, x, y)) (zip (ic_X r) (ic_Y r))))
                  \<inter> set (map ic_key5 (ic_exploded rs)) = {}"
    by (auto simp: ic_key5_def set_ic_exploded image_iff)
  from 1 2 3 show ?case unfolding split by (simp del: map_map)
qed


lemma merged_inventory_grid_cases:
  assumes ids: "distinct (map ic_INVENTORY_CURVE_ID rs)"
    and dx: "\<forall>r \<in> set rs. distinct (ic_X r)"
    and len: "\<forall>r \<in> set rs. length (ic_X r) = length (ic_Y r)"
    and g: "g \<in> set (merged_inventory_grid rs)"
  shows "\<exists>r \<in> set rs. pig_INVENTORY_CURVE_ID g = ic_INVENTORY_CURVE_ID r \<and>
           (\<exists>r' \<in> set rs. pig_X g \<in> set (ic_X r')) \<and>
           ((pig_Y g = None \<and> pig_X g \<notin> set (ic_X r)) \<or>
            (\<exists>y. pig_Y g = Some y \<and> (pig_X g, y) \<in> set (zip (ic_X r) (ic_Y r))))"
proof -
  define ex where "ex = ic_exploded rs"
  define lk :: "(string \<times> string \<times> int) \<times> (string \<times> string \<times> string \<times> string)
                  \<Rightarrow> string \<times> string \<times> string \<times> string \<times> int"
    where "lk = (\<lambda>((l, w, x), (l', i, p, w')). (l, i, w, p, x))"
  have dk: "distinct (map ic_key5 ex)"
    unfolding ex_def using ids dx by (rule distinct_ic_exploded_keys)
  from g obtain t c m where
    tc: "(t, c) \<in> set (merge_inner (\<lambda>(l, w, x). (l, w)) (\<lambda>(l, i, p, w). (l, w))
           (drop_duplicates (map (\<lambda>(r, x, y). (ic_LOCATION r, ic_WEEK_START r, x)) ex))
           (drop_duplicates (map (\<lambda>(r, x, y).
              (ic_LOCATION r, ic_INVENTORY_CURVE_ID r, ic_PRODUCT r, ic_WEEK_START r)) ex)))"
    and m: "m = find (\<lambda>e. ic_key5 e = lk (t, c)) ex"
    and geq: "g = (\<lambda>(((l, w, x), (l', i, p, w')), m).
           \<lparr>pig_LOCATION = l, pig_WEEK_START = w, pig_X = x,
            pig_INVENTORY_CURVE_ID = i, pig_PRODUCT = p,
            pig_CONSUMPTION_PROFILE_CURVE_ID =
              map_option (\<lambda>(r, x, y). ic_CONSUMPTION_PROFILE_CURVE_ID r) m,
            pig_Y = map_option (\<lambda>(r, x, y). y) m\<rparr>) ((t, c), m)"
    unfolding merged_inventory_grid_def Let_def ex_def[symmetric] lk_def[symmetric]
      merge_left_distinct_right[OF dk]
    by auto
  from tc have tin: "t \<in> (\<lambda>(r, x, y). (ic_LOCATION r, ic_WEEK_START r, x)) ` set ex"
    and cin: "c \<in> (\<lambda>(r, x, y).
              (ic_LOCATION r, ic_INVENTORY_CURVE_ID r, ic_PRODUCT r, ic_WEEK_START r)) ` set ex"
    and keq: "(\<lambda>(l, i, p, w). (l, w)) c = (\<lambda>(l, w, x). (l, w)) t"
    by (simp_all add: set_merge_inner)
  from tin obtain r' x y' where
    t: "t = (ic_LOCATION r', ic_WEEK_START r', x)" and e': "(r', x, y') \<in> set ex"
    by auto
  from cin obtain r x0 y0 where
    c: "c = (ic_LOCATION r, ic_INVENTORY_CURVE_ID r, ic_PRODUCT r, ic_WEEK_START r)"
    and e: "(r, x0, y0) \<in> set ex"
    by auto
  from keq have same: "ic_LOCATION r' = ic_LOCATION r" "ic_WEEK_START r' = ic_WEEK_START r"
    by (simp_all add: t c)
  from e e' have r: "r \<in> set rs" and r': "r' \<in> set rs" and x: "x \<in> set (ic_X r')"
    by (auto simp: ex_def set_ic_exploded dest: set_zip_leftD)
  have key: "lk (t, c) = (ic_LOCATION r, ic_INVENTORY_CURVE_ID r, ic_WEEK_START r, ic_PRODUCT r, x)"
    by (simp add: lk_def t c same)
  have gi: "pig_INVENTORY_CURVE_ID g = ic_INVENTORY_CURVE_ID r" and gx: "pig_X g = x"
    and gy: "pig_Y g = map_option (\<lambda>(r, x, y). y) m"
    by (simp_all add: geq t c)
  have "(pig_Y g = None \<and> x \<notin> set (ic_X r)) \<or>
        (\<exists>y. pig_Y g = Some y \<and> (x, y) \<in> set (zip (ic_X r) (ic_Y r)))"
  proof (cases m)
    case None
    have "x \<notin> set (ic_X r)"
    proof
      assume "x \<in> set (ic_X r)"
      with len r obtain y where "(x, y) \<in> set (zip (ic_X r) (ic_Y r))"
        by (metis in_set_impl_in_set_zip1)
      with r have inex: "(r, x, y) \<in> set ex" by (simp add: ex_def set_ic_exploded)
      from None m have "find (\<lambda>e. ic_key5 e = lk (t, c)) ex = None" by simp
      from find_None_D[OF this inex] have "ic_key5 (r, x, y) \<noteq> lk (t, c)" .
      then show False by (simp add: key ic_key5_def)
    qed
    with None gy show ?thesis by simp
  next
    case (Some e1)
    obtain r1 x1 y1 where e1: "e1 = (r1, x1, y1)" by (cases e1)
    from Some m have "find (\<lambda>e. ic_key5 e = lk (t, c)) ex = Some e1" by simp
    from find_Some_D[OF this] have "e1 \<in> set ex \<and> ic_key5 e1 = lk (t, c)" .
    with e1 key have in1: "(r1, x1, y1) \<in> set ex"
      and k1: "ic_INVENTORY_CURVE_ID r1 = ic_INVENTORY_CURVE_ID r" "x1 = x"
      by (auto simp: ic_key5_def)
    from in1 have z: "(x1, y1) \<in> set (zip (ic_X r1) (ic_Y r1))"
      by (simp add: ex_def set_ic_exploded)
    from in1 have "r1 \<in> set rs"
      by (simp add: ex_def set_ic_exploded)
    moreover from ids have "inj_on ic_INVENTORY_CURVE_ID (set rs)"
      by (simp add: distinct_map)
    ultimately have "r1 = r" using k1(1) r by (auto dest: inj_onD)
    with z k1(2) Some e1 gy show ?thesis by simp
  qed
  with r r' x gi gx show ?thesis by blast
qed

lemma merged_inventory_grid_covers:
  assumes ids: "distinct (map ic_INVENTORY_CURVE_ID rs)"
    and dx: "\<forall>r \<in> set rs. distinct (ic_X r)"
    and len: "\<forall>r \<in> set rs. length (ic_X r) = length (ic_Y r)"
    and r: "r \<in> set rs" and x: "x \<in> set (ic_X r)"
  shows "\<exists>g \<in> set (merged_inventory_grid rs).
           pig_INVENTORY_CURVE_ID g = ic_INVENTORY_CURVE_ID r \<and> pig_X g = x"
proof -
  define ex where "ex = ic_exploded rs"
  define lk :: "(string \<times> string \<times> int) \<times> (string \<times> string \<times> string \<times> string)
                  \<Rightarrow> string \<times> string \<times> string \<times> string \<times> int"
    where "lk = (\<lambda>((l, w, x), (l', i, p, w')). (l, i, w, p, x))"
  have dk: "distinct (map ic_key5 ex)"
    unfolding ex_def using ids dx by (rule distinct_ic_exploded_keys)
  from len r x obtain y where "(x, y) \<in> set (zip (ic_X r) (ic_Y r))"
    by (metis in_set_impl_in_set_zip1)
  with r have e: "(r, x, y) \<in> set ex" by (simp add: ex_def set_ic_exploded)
  let ?t = "(ic_LOCATION r, ic_WEEK_START r, x)"
  let ?c = "(ic_LOCATION r, ic_INVENTORY_CURVE_ID r, ic_PRODUCT r, ic_WEEK_START r)"
  let ?grid = "merge_inner (\<lambda>(l, w, x). (l, w)) (\<lambda>(l, i, p, w). (l, w))
           (drop_duplicates (map (\<lambda>(r, x, y). (ic_LOCATION r, ic_WEEK_START r, x)) ex))
           (drop_duplicates (map (\<lambda>(r, x, y).
              (ic_LOCATION r, ic_INVENTORY_CURVE_ID r, ic_PRODUCT r, ic_WEEK_START r)) ex))"
  let ?mk = "\<lambda>(((l, w, x), (l', i, p, w')), m).
           \<lparr>pig_LOCATION = l, pig_WEEK_START = w, pig_X = x,
            pig_INVENTORY_CURVE_ID = i, pig_PRODUCT = p,
            pig_CONSUMPTION_PROFILE_CURVE_ID =
              map_option (\<lambda>(r, x, y). ic_CONSUMPTION_PROFILE_CURVE_ID r) m,
            pig_Y = map_option (\<lambda>(r, x, y). y) m\<rparr>"
  have "?t \<in> (\<lambda>(r, x, y). (ic_LOCATION r, ic_WEEK_START r, x)) ` set ex"
    using e by force
  moreover have "?c \<in> (\<lambda>(r, x, y).
              (ic_LOCATION r, ic_INVENTORY_CURVE_ID r, ic_PRODUCT r, ic_WEEK_START r)) ` set ex"
    using e by force
  ultimately have tc: "(?t, ?c) \<in> set ?grid"
    by (simp add: set_merge_inner)
  have M: "merged_inventory_grid rs
             = map ?mk (map (\<lambda>l. (l, find (\<lambda>e. ic_key5 e = lk l) ex)) ?grid)"
    unfolding merged_inventory_grid_def Let_def ex_def[symmetric] lk_def[symmetric]
      merge_left_distinct_right[OF dk] ..
  let ?g = "?mk ((?t, ?c), find (\<lambda>e. ic_key5 e = lk (?t, ?c)) ex)"
  from tc have "(\<lambda>l. (l, find (\<lambda>e. ic_key5 e = lk l) ex)) (?t, ?c)
      \<in> set (map (\<lambda>l. (l, find (\<lambda>e. ic_key5 e = lk l) ex)) ?grid)"
    by (simp only: set_map) (rule imageI)
  then have "?mk ((\<lambda>l. (l, find (\<lambda>e. ic_key5 e = lk l) ex)) (?t, ?c))
      \<in> set (map ?mk (map (\<lambda>l. (l, find (\<lambda>e. ic_key5 e = lk l) ex)) ?grid))"
    by (simp only: set_map) (rule imageI)
  then have "?g \<in> set (merged_inventory_grid rs)"
    unfolding M by simp
  moreover have "pig_INVENTORY_CURVE_ID ?g = ic_INVENTORY_CURVE_ID r \<and> pig_X ?g = x"
    by simp
  ultimately show ?thesis by blast
qed


lemma merged_inventory_grid_keys_distinct:
  assumes ids: "distinct (map ic_INVENTORY_CURVE_ID rs)"
    and dx: "\<forall>r \<in> set rs. distinct (ic_X r)"
  shows "distinct (map (\<lambda>g. (pig_INVENTORY_CURVE_ID g, pig_X g)) (merged_inventory_grid rs))"
proof -
  define ex where "ex = ic_exploded rs"
  define lk :: "(string \<times> string \<times> int) \<times> (string \<times> string \<times> string \<times> string)
                  \<Rightarrow> string \<times> string \<times> string \<times> string \<times> int"
    where "lk = (\<lambda>((l, w, x), (l', i, p, w')). (l, i, w, p, x))"
  define grid where "grid = merge_inner (\<lambda>(l, w, x). (l, w)) (\<lambda>(l, i, p, w). (l, w))
           (drop_duplicates (map (\<lambda>(r, x, y). (ic_LOCATION r, ic_WEEK_START r, x)) ex))
           (drop_duplicates (map (\<lambda>(r, x, y).
              (ic_LOCATION r, ic_INVENTORY_CURVE_ID r, ic_PRODUCT r, ic_WEEK_START r)) ex))"
  define kappa :: "(string \<times> string \<times> int) \<times> (string \<times> string \<times> string \<times> string)
                  \<Rightarrow> string \<times> int"
    where "kappa = (\<lambda>((l, w, x), (l', i, p, w')). (i, x))"
  have dk: "distinct (map ic_key5 ex)"
    unfolding ex_def using ids dx by (rule distinct_ic_exploded_keys)
  have M: "map (\<lambda>g. (pig_INVENTORY_CURVE_ID g, pig_X g)) (merged_inventory_grid rs)
             = map kappa grid"
    unfolding merged_inventory_grid_def Let_def ex_def[symmetric] lk_def[symmetric]
      merge_left_distinct_right[OF dk] grid_def[symmetric]
    by (simp add: kappa_def case_prod_unfold comp_def)
  have dg: "distinct grid"
    unfolding grid_def by (rule distinct_merge_inner) simp_all
  have inj: "inj_on kappa (set grid)"
  proof (rule inj_onI)
    fix a b assume a: "a \<in> set grid" and b: "b \<in> set grid" and eq: "kappa a = kappa b"
    obtain t1 c1 where a': "a = (t1, c1)" by (cases a)
    obtain t2 c2 where b': "b = (t2, c2)" by (cases b)
    have shape: "\<exists>r x. r \<in> set rs \<and>
             c = (ic_LOCATION r, ic_INVENTORY_CURVE_ID r, ic_PRODUCT r, ic_WEEK_START r) \<and>
             t = (ic_LOCATION r, ic_WEEK_START r, x)"
      if "(t, c) \<in> set grid" for t c
    proof -
      from that have
        cin: "c \<in> (\<lambda>(r, x, y).
              (ic_LOCATION r, ic_INVENTORY_CURVE_ID r, ic_PRODUCT r, ic_WEEK_START r)) ` set ex"
        and keq: "(\<lambda>(l, i, p, w). (l, w)) c = (\<lambda>(l, w, x). (l, w)) t"
        by (simp_all add: grid_def set_merge_inner)
      from cin obtain r x0 y0 where
        c: "c = (ic_LOCATION r, ic_INVENTORY_CURVE_ID r, ic_PRODUCT r, ic_WEEK_START r)"
        and e: "(r, x0, y0) \<in> set ex"
        by auto
      from e have "r \<in> set rs" by (simp add: ex_def set_ic_exploded)
      moreover obtain l w x where t: "t = (l, w, x)" by (cases t)
      moreover from keq have "l = ic_LOCATION r" "w = ic_WEEK_START r"
        by (simp_all add: t c)
      ultimately show ?thesis using c by blast
    qed
    from shape[OF a[unfolded a']] obtain r1 x1 where
      1: "r1 \<in> set rs"
         "c1 = (ic_LOCATION r1, ic_INVENTORY_CURVE_ID r1, ic_PRODUCT r1, ic_WEEK_START r1)"
         "t1 = (ic_LOCATION r1, ic_WEEK_START r1, x1)" by blast
    from shape[OF b[unfolded b']] obtain r2 x2 where
      2: "r2 \<in> set rs"
         "c2 = (ic_LOCATION r2, ic_INVENTORY_CURVE_ID r2, ic_PRODUCT r2, ic_WEEK_START r2)"
         "t2 = (ic_LOCATION r2, ic_WEEK_START r2, x2)" by blast
    from eq have i: "ic_INVENTORY_CURVE_ID r1 = ic_INVENTORY_CURVE_ID r2" and x: "x1 = x2"
      by (simp_all add: a' b' 1 2 kappa_def)
    from ids have "inj_on ic_INVENTORY_CURVE_ID (set rs)" by (simp add: distinct_map)
    with i 1(1) 2(1) have "r1 = r2" by (auto dest: inj_onD)
    with x show "a = b" by (simp add: a' b' 1 2)
  qed
  from dg inj show ?thesis unfolding M by (simp add: distinct_map)
qed

lemma set_map_insort_key:
  "f ` set (insort_key g x xs) = insert (f x) (f ` set xs)"
  by (simp add: set_insort_key)

lemma distinct_map_insort_key:
  "distinct (map f (insort_key g x xs)) \<longleftrightarrow> f x \<notin> f ` set xs \<and> distinct (map f xs)"
  by (induction xs) (auto simp: set_insort_key)

lemma distinct_map_sort_key:
  "distinct (map f (sort_key g xs)) \<longleftrightarrow> distinct (map f xs)"
  by (induction xs) (simp_all add: distinct_map_insort_key)

lemma map_key_map2:
  assumes "length xs = length vs" "\<And>r v. f (upd r v) = f r"
  shows "map f (map2 upd xs vs) = map f xs"
  using assms(1) by (induction xs vs rule: list_induct2) (simp_all add: assms(2))

lemma sorted_filter_take:
  "sorted (map f xs) \<Longrightarrow> sorted (map f (filter P (take n xs)))"
proof -
  assume "sorted (map f xs)"
  then have "sorted (take n (map f xs))" by (rule sorted_wrt_take)
  then have "sorted (map f (take n xs))" by (simp add: take_map)
  then show ?thesis by (rule sorted_filter)
qed


lemma last_valid_map_D:
  assumes "last_valid (map col V) = Some w"
  shows "\<exists>V1 gw V2. V = V1 @ gw # V2 \<and> col gw = Some w \<and> (\<forall>g \<in> set V2. col g = None)"
proof -
  from last_valid_Some_D[OF assms] obtain pre post where
    eq: "map col V = pre @ Some w # post" and none: "\<forall>v \<in> set post. v = None" by blast
  from eq obtain V1 V' where V: "V = V1 @ V'" and "map col V' = Some w # post"
    by (auto simp: map_eq_append_conv)
  then obtain gw V2 where V': "V' = gw # V2" and gw: "col gw = Some w" and "map col V2 = post"
    by (auto simp: map_eq_Cons_conv)
  with none have "\<forall>g \<in> set V2. col g = None" by auto
  with V V' gw show ?thesis by blast
qed

text \<open>
  Forward fill on a table sorted by \<open>(group, position)\<close> with unique keys: an empty cell that
  has a filled cell of its group before it takes the value of the filled cell of its group
  with the greatest position before its own.
\<close>

lemma ffill_sorted:
  fixes grp :: "'r \<Rightarrow> 'g::linorder" and pos :: "'r \<Rightarrow> 'p::linorder"
  assumes srt: "sorted (map (\<lambda>g. (grp g, pos g)) S)"
    and dst: "distinct (map (\<lambda>g. (grp g, pos g)) S)"
    and n: "n < length S" and empty: "col (S ! n) = None"
    and g0: "g0 \<in> set S" "grp g0 = grp (S ! n)" "pos g0 < pos (S ! n)" "col g0 \<noteq> None"
  shows "\<exists>gw \<in> set S. grp gw = grp (S ! n) \<and> pos gw < pos (S ! n) \<and> col gw \<noteq> None \<and>
           groupby_ffill grp col S ! n = col gw \<and>
           (\<forall>g' \<in> set S. grp g' = grp (S ! n) \<and> pos g' < pos (S ! n) \<and> col g' \<noteq> None
                \<longrightarrow> pos g' \<le> pos gw)"
proof -
  let ?k = "\<lambda>g. (grp g, pos g)"
  let ?V = "filter (\<lambda>r. grp r = grp (S ! n)) (take n S)"
  have before: "g \<in> set ?V" if "g \<in> set S" "grp g = grp (S ! n)" "pos g < pos (S ! n)" for g
  proof -
    from that(2,3) have "?k g < ?k (S ! n)" by (simp add: less_prod_def)
    with srt n that(1) have "g \<in> set (take n S)" by (rule sorted_distinct_before)
    with that(2) show ?thesis by simp
  qed
  have inV: "g \<in> set S \<and> grp g = grp (S ! n) \<and> pos g < pos (S ! n)" if "g \<in> set ?V" for g
  proof -
    from that have t: "g \<in> set (take n S)" and gg: "grp g = grp (S ! n)" by simp_all
    from srt dst n t have "?k g < ?k (S ! n)" by (rule sorted_distinct_take_less)
    with gg have "pos g < pos (S ! n)" by (simp add: less_prod_def)
    with t gg show ?thesis by (auto dest: in_set_takeD)
  qed
  have fill: "groupby_ffill grp col S ! n = last_valid (map col ?V)"
    using n empty by (simp add: groupby_ffill_nth)
  from before[OF g0(1,2,3)] g0(4) have "last_valid (map col ?V) \<noteq> None"
    by (auto simp: last_valid_None_iff)
  then obtain w where w: "last_valid (map col ?V) = Some w" by auto
  from last_valid_map_D[OF this] obtain V1 gw V2 where
    V: "?V = V1 @ gw # V2" and gw: "col gw = Some w" and V2: "\<forall>g \<in> set V2. col g = None"
    by blast
  have "gw \<in> set ?V" unfolding V by simp
  from inV[OF this] have gwS: "gw \<in> set S" "grp gw = grp (S ! n)" "pos gw < pos (S ! n)"
    by simp_all
  have sV: "sorted (map ?k ?V)" using srt by (rule sorted_filter_take)
  have max: "pos g' \<le> pos gw"
    if g': "g' \<in> set S" "grp g' = grp (S ! n)" "pos g' < pos (S ! n)" "col g' \<noteq> None" for g'
  proof -
    from before[OF g'(1,2,3)] have "g' \<in> set (V1 @ gw # V2)" unfolding V .
    with V2 g'(4) have "g' = gw \<or> g' \<in> set V1" by auto
    then show ?thesis
    proof
      assume "g' = gw" then show ?thesis by simp
    next
      assume "g' \<in> set V1"
      with sV have "?k g' \<le> ?k gw" unfolding V by (auto simp: sorted_append)
      with g'(2) gwS(2) show ?thesis by (simp add: less_eq_prod_def)
    qed
  qed
  from gwS gw fill w max show ?thesis by (intro bexI[of _ gw]) auto
qed


text \<open>
  C4. For a table of inventory curves with the required columns that passes the boundary
  validation, whose records have as many values as minutes, minutes without repetition and
  pairwise different curve ids, \<^verbatim>\<open>create_product_inventory\<close> returns a table sorted by
  \<open>(INVENTORY_CURVE_ID, X)\<close> that holds every sampled minute of every curve, and in every
  row the stock \<open>Y\<close> is filled with the value of the curve's last sample at or before the
  row's minute: no row is left unfilled.
\<close>

theorem forward_fill_last_sample:
  assumes cols: "set (columns ic) = set required_columns_ic"
    and bnd: "check_boundary (map ic_X (rows ic)) = None"
    and len: "\<forall>r \<in> set (rows ic). length (ic_X r) = length (ic_Y r)"
    and dx: "\<forall>r \<in> set (rows ic). distinct (ic_X r)"
    and ids: "distinct (map ic_INVENTORY_CURVE_ID (rows ic))"
  shows "\<exists>out. create_product_inventory (DataFrame ic) = Inr out \<and>
     sorted (map (\<lambda>g. (pig_INVENTORY_CURVE_ID g, pig_X g)) (rows out)) \<and>
     (\<forall>r \<in> set (rows ic). \<forall>x \<in> set (ic_X r).
        (ic_INVENTORY_CURVE_ID r, x)
          \<in> set (map (\<lambda>g. (pig_INVENTORY_CURVE_ID g, pig_X g)) (rows out))) \<and>
     (\<forall>g \<in> set (rows out). \<exists>r \<in> set (rows ic). \<exists>x y.
        ic_INVENTORY_CURVE_ID r = pig_INVENTORY_CURVE_ID g \<and>
        (x, y) \<in> set (zip (ic_X r) (ic_Y r)) \<and> x \<le> pig_X g \<and>
        (\<forall>x' \<in> set (ic_X r). x' \<le> pig_X g \<longrightarrow> x' \<le> x) \<and>
        pig_Y g = Some y)"
proof -
  let ?k = "\<lambda>g. (pig_INVENTORY_CURVE_ID g, pig_X g)"
  define rs where "rs = rows ic"
  define M where "M = merged_inventory_grid rs"
  define S where "S = sort_key ?k M"
  define vs where "vs = groupby_ffill pig_INVENTORY_CURVE_ID pig_Y S"
  define FY where "FY = map2 (\<lambda>r v. r\<lparr>pig_Y := v\<rparr>) S vs"
  define cs where "cs = groupby_ffill (\<lambda>r. (pig_LOCATION r, pig_WEEK_START r))
                          pig_CONSUMPTION_PROFILE_CURVE_ID FY"
  define FC where "FC = map2 (\<lambda>r v. r\<lparr>pig_CONSUMPTION_PROFILE_CURVE_ID := v\<rparr>) FY cs"
  note len' = len[folded rs_def] and dx' = dx[folded rs_def] and ids' = ids[folded rs_def]
  have out: "create_product_inventory (DataFrame ic) = Inr \<lparr>columns = columns_pig, rows = FC\<rparr>"
    unfolding create_product_inventory_rows[OF cols bnd len]
    by (simp add: Let_def FC_def cs_def FY_def vs_def S_def M_def rs_def)
  have lvs: "length vs = length S" by (simp add: vs_def)
  have lFY: "length FY = length S" by (simp add: FY_def lvs)
  have lcs: "length cs = length S" by (simp add: cs_def lFY)
  have lFC: "length FC = length S" by (simp add: FC_def lFY lcs)
  have kFY: "map ?k FY = map ?k S"
    unfolding FY_def by (rule map_key_map2) (simp_all add: lvs)
  have kFC: "map ?k FC = map ?k S"
    unfolding FC_def kFY[symmetric] by (rule map_key_map2) (simp_all add: lFY lcs)
  have srt: "sorted (map ?k S)" unfolding S_def by (rule sorted_sort_key)
  have dst: "distinct (map ?k S)"
    unfolding S_def distinct_map_sort_key M_def
    using ids' dx' by (rule merged_inventory_grid_keys_distinct)
  have setS: "set S = set M" by (simp add: S_def)
  have nthFC: "pig_INVENTORY_CURVE_ID (FC ! n) = pig_INVENTORY_CURVE_ID (S ! n) \<and>
               pig_X (FC ! n) = pig_X (S ! n) \<and> pig_Y (FC ! n) = vs ! n"
    if "n < length S" for n
    using that by (simp add: FC_def FY_def lvs lFY lcs)
  have zero: "ic_X r \<noteq> [] \<and> Min (set (ic_X r)) = 0" if "r \<in> set rs" for r
    using check_boundary_None_D[OF bnd, of "ic_X r"] that by (simp add: rs_def)
  have filled: "\<exists>r \<in> set rs. \<exists>x y.
        ic_INVENTORY_CURVE_ID r = pig_INVENTORY_CURVE_ID (S ! n) \<and>
        (x, y) \<in> set (zip (ic_X r) (ic_Y r)) \<and> x \<le> pig_X (S ! n) \<and>
        (\<forall>x' \<in> set (ic_X r). x' \<le> pig_X (S ! n) \<longrightarrow> x' \<le> x) \<and>
        vs ! n = Some y"
    if n: "n < length S" for n
  proof -
    let ?s = "S ! n"
    from n have "?s \<in> set M" using setS by (metis nth_mem)
    from merged_inventory_grid_cases[OF ids' dx' len' this[unfolded M_def]]
    obtain r r' where r: "r \<in> set rs" and ri: "pig_INVENTORY_CURVE_ID ?s = ic_INVENTORY_CURVE_ID r"
      and r': "r' \<in> set rs" "pig_X ?s \<in> set (ic_X r')"
      and cases: "(pig_Y ?s = None \<and> pig_X ?s \<notin> set (ic_X r)) \<or>
            (\<exists>y. pig_Y ?s = Some y \<and> (pig_X ?s, y) \<in> set (zip (ic_X r) (ic_Y r)))"
      by blast
    from cases show ?thesis
    proof
      assume "\<exists>y. pig_Y ?s = Some y \<and> (pig_X ?s, y) \<in> set (zip (ic_X r) (ic_Y r))"
      then obtain y where y: "pig_Y ?s = Some y" "(pig_X ?s, y) \<in> set (zip (ic_X r) (ic_Y r))"
        by blast
      from n y(1) have "vs ! n = Some y" by (simp add: vs_def groupby_ffill_nth)
      with r ri y(2) show ?thesis
        by (intro bexI[of _ r] exI[of _ "pig_X ?s"] exI[of _ y]) auto
    next
      assume a: "pig_Y ?s = None \<and> pig_X ?s \<notin> set (ic_X r)"
      \<comment> \<open>minute 0 of the curve is a filled row before this one\<close>
      from zero[OF r] have "0 \<in> set (ic_X r)" by (metis Min_in List.finite_set set_empty)
      from merged_inventory_grid_covers[OF ids' dx' len' r this]
      obtain g0 where g0: "g0 \<in> set M" "pig_INVENTORY_CURVE_ID g0 = ic_INVENTORY_CURVE_ID r"
        "pig_X g0 = 0" unfolding M_def by blast
      have sample_filled: "pig_Y g \<noteq> None \<and>
              (\<forall>y. pig_Y g = Some y \<longrightarrow> (pig_X g, y) \<in> set (zip (ic_X r) (ic_Y r)))"
        if g: "g \<in> set M" "pig_INVENTORY_CURVE_ID g = ic_INVENTORY_CURVE_ID r"
              "pig_X g \<in> set (ic_X r)" for g
      proof -
        from merged_inventory_grid_cases[OF ids' dx' len' g(1)[unfolded M_def]]
        obtain r1 where r1: "r1 \<in> set rs" "pig_INVENTORY_CURVE_ID g = ic_INVENTORY_CURVE_ID r1"
          and c1: "(pig_Y g = None \<and> pig_X g \<notin> set (ic_X r1)) \<or>
            (\<exists>y. pig_Y g = Some y \<and> (pig_X g, y) \<in> set (zip (ic_X r1) (ic_Y r1)))"
          by blast
        from ids' have "inj_on ic_INVENTORY_CURVE_ID (set rs)" by (simp add: distinct_map)
        with r1 r g(2) have "r1 = r" by (auto dest: inj_onD)
        with c1 g(3) show ?thesis by auto
      qed
      have filled_sample: "pig_X g \<in> set (ic_X r)"
        if g: "g \<in> set M" "pig_INVENTORY_CURVE_ID g = ic_INVENTORY_CURVE_ID r"
              "pig_Y g \<noteq> None" for g
      proof -
        from merged_inventory_grid_cases[OF ids' dx' len' g(1)[unfolded M_def]]
        obtain r1 where r1: "r1 \<in> set rs" "pig_INVENTORY_CURVE_ID g = ic_INVENTORY_CURVE_ID r1"
          and c1: "(pig_Y g = None \<and> pig_X g \<notin> set (ic_X r1)) \<or>
            (\<exists>y. pig_Y g = Some y \<and> (pig_X g, y) \<in> set (zip (ic_X r1) (ic_Y r1)))"
          by blast
        from ids' have "inj_on ic_INVENTORY_CURVE_ID (set rs)" by (simp add: distinct_map)
        with r1 r g(2) have "r1 = r" by (auto dest: inj_onD)
        with c1 g(3) show ?thesis by (auto dest: set_zip_leftD)
      qed
      from zero[OF r'(1)] r'(2) have "0 \<le> pig_X ?s"
        by (metis Min_le List.finite_set)
      moreover from a \<open>0 \<in> set (ic_X r)\<close> have "pig_X ?s \<noteq> 0" by auto
      ultimately have pos: "0 < pig_X ?s" by simp
      have "\<exists>gw \<in> set S. pig_INVENTORY_CURVE_ID gw = pig_INVENTORY_CURVE_ID ?s \<and>
              pig_X gw < pig_X ?s \<and> pig_Y gw \<noteq> None \<and>
              groupby_ffill pig_INVENTORY_CURVE_ID pig_Y S ! n = pig_Y gw \<and>
              (\<forall>g' \<in> set S. pig_INVENTORY_CURVE_ID g' = pig_INVENTORY_CURVE_ID ?s \<and>
                   pig_X g' < pig_X ?s \<and> pig_Y g' \<noteq> None \<longrightarrow> pig_X g' \<le> pig_X gw)"
      proof (rule ffill_sorted[OF srt dst n])
        show "pig_Y ?s = None" using a by simp
        show "g0 \<in> set S" using g0(1) setS by simp
        show "pig_INVENTORY_CURVE_ID g0 = pig_INVENTORY_CURVE_ID ?s" using g0(2) ri by simp
        show "pig_X g0 < pig_X ?s" using g0(3) pos by simp
        show "pig_Y g0 \<noteq> None"
          using sample_filled[OF g0(1,2)] g0(3) \<open>0 \<in> set (ic_X r)\<close> by simp
      qed
      then obtain gw where gw: "gw \<in> set S"
        "pig_INVENTORY_CURVE_ID gw = pig_INVENTORY_CURVE_ID ?s" "pig_X gw < pig_X ?s"
        "pig_Y gw \<noteq> None" "vs ! n = pig_Y gw"
        and max: "\<And>g'. g' \<in> set S \<Longrightarrow> pig_INVENTORY_CURVE_ID g' = pig_INVENTORY_CURVE_ID ?s \<Longrightarrow>
                   pig_X g' < pig_X ?s \<Longrightarrow> pig_Y g' \<noteq> None \<Longrightarrow> pig_X g' \<le> pig_X gw"
        unfolding vs_def by blast
      from gw(4) obtain w where w: "pig_Y gw = Some w" by auto
      have gwM: "gw \<in> set M" using gw(1) setS by simp
      have gwi: "pig_INVENTORY_CURVE_ID gw = ic_INVENTORY_CURVE_ID r" using gw(2) ri by simp
      from filled_sample[OF gwM gwi gw(4)] have gwx: "pig_X gw \<in> set (ic_X r)" .
      from sample_filled[OF gwM gwi gwx] w
      have z: "(pig_X gw, w) \<in> set (zip (ic_X r) (ic_Y r))" by simp
      have latest: "x' \<le> pig_X gw" if x': "x' \<in> set (ic_X r)" "x' \<le> pig_X ?s" for x'
      proof -
        from x' a have lt: "x' < pig_X ?s" by (cases "x' = pig_X ?s") auto
        from merged_inventory_grid_covers[OF ids' dx' len' r x'(1)]
        obtain g' where g': "g' \<in> set M" "pig_INVENTORY_CURVE_ID g' = ic_INVENTORY_CURVE_ID r"
          "pig_X g' = x'" unfolding M_def by blast
        from sample_filled[OF g'(1,2)] g'(3) x'(1) have "pig_Y g' \<noteq> None" by simp
        with max[of g'] g' lt ri setS show ?thesis by simp
      qed
      from r ri z gw(3,5) w latest show ?thesis
        by (intro bexI[of _ r] exI[of _ "pig_X gw"] exI[of _ w]) auto
    qed
  qed
  have rows_ok: "\<exists>r \<in> set (rows ic). \<exists>x y.
        ic_INVENTORY_CURVE_ID r = pig_INVENTORY_CURVE_ID g \<and>
        (x, y) \<in> set (zip (ic_X r) (ic_Y r)) \<and> x \<le> pig_X g \<and>
        (\<forall>x' \<in> set (ic_X r). x' \<le> pig_X g \<longrightarrow> x' \<le> x) \<and>
        pig_Y g = Some y" if "g \<in> set FC" for g
  proof -
    from that obtain n where n: "n < length S" "g = FC ! n"
      by (auto simp: in_set_conv_nth lFC)
    from filled[OF n(1)] nthFC[OF n(1)] n(2) show ?thesis
      unfolding rs_def by simp
  qed
  have cover: "(ic_INVENTORY_CURVE_ID r, x) \<in> set (map ?k FC)"
    if "r \<in> set (rows ic)" "x \<in> set (ic_X r)" for r x
  proof -
    from merged_inventory_grid_covers[OF ids' dx' len' that(1)[folded rs_def] that(2)]
    obtain g where "g \<in> set M" "?k g = (ic_INVENTORY_CURVE_ID r, x)"
      unfolding M_def by auto
    then have "(ic_INVENTORY_CURVE_ID r, x) \<in> ?k ` set S" using setS by force
    then show ?thesis unfolding kFC by simp
  qed
  show ?thesis
  proof (intro exI[of _ "\<lparr>columns = columns_pig, rows = FC\<rparr>"] conjI ballI)
    show "create_product_inventory (DataFrame ic) = Inr \<lparr>columns = columns_pig, rows = FC\<rparr>"
      by (rule out)
    show "sorted (map ?k (rows \<lparr>columns = columns_pig, rows = FC\<rparr>))"
      using srt by (simp only: frame.select_convs kFC)
  next
    fix r x assume "r \<in> set (rows ic)" "x \<in> set (ic_X r)"
    then show "(ic_INVENTORY_CURVE_ID r, x)
          \<in> set (map ?k (rows \<lparr>columns = columns_pig, rows = FC\<rparr>))"
      using cover by (simp only: frame.select_convs)
  next
    fix g assume "g \<in> set (rows \<lparr>columns = columns_pig, rows = FC\<rparr>)"
    then have "g \<in> set FC" by simp
    then show "\<exists>r \<in> set (rows ic). \<exists>x y.
        ic_INVENTORY_CURVE_ID r = pig_INVENTORY_CURVE_ID g \<and>
        (x, y) \<in> set (zip (ic_X r) (ic_Y r)) \<and> x \<le> pig_X g \<and>
        (\<forall>x' \<in> set (ic_X r). x' \<le> pig_X g \<longrightarrow> x' \<le> x) \<and>
        pig_Y g = Some y"
      by (rule rows_ok)
  qed
qed


theorem forward_fill_last_sample_witness:
  "(\<exists>out. create_product_inventory (DataFrame
      \<lparr>columns = required_columns_ic,
       rows = [\<lparr>ic_LOCATION = ''A'', ic_PRODUCT = ''P1'', ic_INVENTORY_CURVE_ID = ''I1'',
                ic_CONSUMPTION_PROFILE_CURVE_ID = ''C1'', ic_WEEK_START = ''2023-06-12'',
                ic_X = [0, 5000, 10079], ic_Y = [3, 0, 2]\<rparr>,
               \<lparr>ic_LOCATION = ''A'', ic_PRODUCT = ''P2'', ic_INVENTORY_CURVE_ID = ''I2'',
                ic_CONSUMPTION_PROFILE_CURVE_ID = ''C1'', ic_WEEK_START = ''2023-06-12'',
                ic_X = [0, 100, 10079], ic_Y = [1, 0, 5]\<rparr>]\<rparr>) = Inr out \<and>
      sorted (map (\<lambda>g. (pig_INVENTORY_CURVE_ID g, pig_X g)) (rows out)) \<and>
      list_all (\<lambda>g. pig_Y g \<noteq> None) (rows out)) \<and>
   map_sum id (\<lambda>out. map (\<lambda>g. (pig_INVENTORY_CURVE_ID g, pig_X g, pig_Y g)) (rows out))
    (create_product_inventory (DataFrame
      \<lparr>columns = required_columns_ic,
       rows = [\<lparr>ic_LOCATION = ''A'', ic_PRODUCT = ''P1'', ic_INVENTORY_CURVE_ID = ''I1'',
                ic_CONSUMPTION_PROFILE_CURVE_ID = ''C1'', ic_WEEK_START = ''2023-06-12'',
                ic_X = [0, 5000, 10079], ic_Y = [3, 0, 2]\<rparr>,
               \<lparr>ic_LOCATION = ''A'', ic_PRODUCT = ''P2'', ic_INVENTORY_CURVE_ID = ''I2'',
                ic_CONSUMPTION_PROFILE_CURVE_ID = ''C1'', ic_WEEK_START = ''2023-06-12'',
                ic_X = [0, 100, 10079], ic_Y = [1, 0, 5]\<rparr>]\<rparr>))
   = Inr [(''I1'', 0, Some 3), (''I1'', 100, Some 3), (''I1'', 5000, Some 0),
          (''I1'', 10079, Some 2),
          (''I2'', 0, Some 1), (''I2'', 100, Some 0), (''I2'', 5000, Some 0),
          (''I2'', 10079, Some 5)]"
proof (rule conjI)
  let ?ic = "\<lparr>columns = required_columns_ic,
       rows = [\<lparr>ic_LOCATION = ''A'', ic_PRODUCT = ''P1'', ic_INVENTORY_CURVE_ID = ''I1'',
                ic_CONSUMPTION_PROFILE_CURVE_ID = ''C1'', ic_WEEK_START = ''2023-06-12'',
                ic_X = [0, 5000, 10079], ic_Y = [3, 0, 2]\<rparr>,
               \<lparr>ic_LOCATION = ''A'', ic_PRODUCT = ''P2'', ic_INVENTORY_CURVE_ID = ''I2'',
                ic_CONSUMPTION_PROFILE_CURVE_ID = ''C1'', ic_WEEK_START = ''2023-06-12'',
                ic_X = [0, 100, 10079], ic_Y = [1, 0, 5]\<rparr>]\<rparr>"
  have h1: "set (columns ?ic) = set required_columns_ic" by simp
  have h2: "check_boundary (map ic_X (rows ?ic)) = None" by (simp add: check_boundary_def)
  have h3: "\<forall>r \<in> set (rows ?ic). length (ic_X r) = length (ic_Y r)" by simp
  have h4: "\<forall>r \<in> set (rows ?ic). distinct (ic_X r)" by simp
  have h5: "distinct (map ic_INVENTORY_CURVE_ID (rows ?ic))" by simp
  from forward_fill_last_sample[OF h1 h2 h3 h4 h5]
  obtain out where out: "create_product_inventory (DataFrame ?ic) = Inr out"
    and s: "sorted (map (\<lambda>g. (pig_INVENTORY_CURVE_ID g, pig_X g)) (rows out))"
    and f: "\<forall>g \<in> set (rows out). \<exists>r \<in> set (rows ?ic). \<exists>x y.
        ic_INVENTORY_CURVE_ID r = pig_INVENTORY_CURVE_ID g \<and>
        (x, y) \<in> set (zip (ic_X r) (ic_Y r)) \<and> x \<le> pig_X g \<and>
        (\<forall>x' \<in> set (ic_X r). x' \<le> pig_X g \<longrightarrow> x' \<le> x) \<and>
        pig_Y g = Some y"
    by blast
  from f have "list_all (\<lambda>g. pig_Y g \<noteq> None) (rows out)"
    unfolding list_all_iff by fastforce
  with out s show "\<exists>out. create_product_inventory (DataFrame ?ic) = Inr out \<and>
      sorted (map (\<lambda>g. (pig_INVENTORY_CURVE_ID g, pig_X g)) (rows out)) \<and>
      list_all (\<lambda>g. pig_Y g \<noteq> None) (rows out)"
    by blast
next
  show "map_sum id (\<lambda>out. map (\<lambda>g. (pig_INVENTORY_CURVE_ID g, pig_X g, pig_Y g)) (rows out))
    (create_product_inventory (DataFrame
      \<lparr>columns = required_columns_ic,
       rows = [\<lparr>ic_LOCATION = ''A'', ic_PRODUCT = ''P1'', ic_INVENTORY_CURVE_ID = ''I1'',
                ic_CONSUMPTION_PROFILE_CURVE_ID = ''C1'', ic_WEEK_START = ''2023-06-12'',
                ic_X = [0, 5000, 10079], ic_Y = [3, 0, 2]\<rparr>,
               \<lparr>ic_LOCATION = ''A'', ic_PRODUCT = ''P2'', ic_INVENTORY_CURVE_ID = ''I2'',
                ic_CONSUMPTION_PROFILE_CURVE_ID = ''C1'', ic_WEEK_START = ''2023-06-12'',
                ic_X = [0, 100, 10079], ic_Y = [1, 0, 5]\<rparr>]\<rparr>))
   = Inr [(''I1'', 0, Some 3), (''I1'', 100, Some 3), (''I1'', 5000, Some 0),
          (''I1'', 10079, Some 2),
          (''I2'', 0, Some 1), (''I2'', 100, Some 0), (''I2'', 5000, Some 0),
          (''I2'', 10079, Some 5)]"
    by (simp add: create_product_inventory_def required_columns_ic_def check_boundary_def
        explode_XY_def drop_duplicates_def merge_left_def groupby_ffill_def)
qed

end
